theory Spec2Isabelle
  imports Complex_Main "HOL-Library.Multiset"
begin

section \<open>Exceptions\<close>

text \<open>
  The repository is three scripts, \<^verbatim>\<open>src/unnamed/part_000\<close> (CatBoost), \<^verbatim>\<open>src/AdaBoost.ipynb\<close>
  and \<^verbatim>\<open>src/LGBM.ipynb\<close>, of the same shape: scale the features, split once, search the
  hyperparameters, refit and evaluate on the single split, then run the K-fold evaluation loop
  and write its table. Each is a sequence of calls into numpy, scikit-learn, scikit-optimize
  and the regressor's package. The library calls whose results the statements below depend on
  (\<^verbatim>\<open>KFold\<close>, \<^verbatim>\<open>train_test_split\<close>, \<^verbatim>\<open>StandardScaler\<close>, the three metrics,
  \<^verbatim>\<open>check_random_state\<close>, \<^verbatim>\<open>DataFrame\<close>) are written out after the libraries' code; the
  random generator, the hyperparameter search and the regressors are parameters.

  The scripts contain no \<^verbatim>\<open>try\<close>/\<^verbatim>\<open>except\<close>: an exception raised by a library call
  ends the script. Every call that can raise returns \<open>error + 'a\<close>, with \<open>Inl\<close> the
  exception.
\<close>

datatype error =
    ValueError      \<comment> \<open>raised by the scikit-learn validators\<close>
  | IndexError      \<comment> \<open>an index array reaching past the end of the indexed array\<close>
  | BackendError    \<comment> \<open>any exception raised inside a regressor's \<^verbatim>\<open>fit\<close> or \<^verbatim>\<open>predict\<close>\<close>

section \<open>The random generator\<close>

text \<open>
  The generator of \<^verbatim>\<open>numpy.random\<close> is taken as a parameter: \<open>RandomState s\<close> is the state of
  a generator freshly seeded with \<open>s\<close> (\<^verbatim>\<open>np.random.RandomState(s)\<close>), and
  \<open>rng_shuffle g xs\<close> is \<^verbatim>\<open>rng.shuffle(xs)\<close>: the shuffled array and the advanced state.
  The process-wide generator that \<^verbatim>\<open>np.random.seed(1)\<close> seeds is a value of type \<open>'g\<close>
  threaded through every call that may draw from it.
\<close>

record 'g numpy_random =
  RandomState :: "nat \<Rightarrow> 'g"
  rng_shuffle :: "'g \<Rightarrow> nat list \<Rightarrow> nat list \<times> 'g"

text \<open>
  \<^verbatim>\<open>check_random_state(seed)\<close> of scikit-learn: \<^verbatim>\<open>None\<close> is the process-wide generator
  itself (so drawing advances it), an int is a new \<^verbatim>\<open>RandomState(seed)\<close> (the process-wide
  generator is left alone). \<open>with_random_state\<close> runs a drawing computation on the
  generator so chosen and returns the process-wide state afterwards.
\<close>

definition with_random_state ::
  "'g numpy_random \<Rightarrow> nat option \<Rightarrow> ('g \<Rightarrow> 'a \<times> 'g) \<Rightarrow> 'g \<Rightarrow> 'a \<times> 'g" where
  "with_random_state np seed draw glob =
     (case seed of
        None \<Rightarrow> draw glob
      | Some s \<Rightarrow> (fst (draw (RandomState np s)), glob))"

text \<open>\<^verbatim>\<open>rng.permutation(n)\<close> is \<^verbatim>\<open>arange(n)\<close> shuffled.\<close>

definition rng_permutation :: "'g numpy_random \<Rightarrow> nat \<Rightarrow> 'g \<Rightarrow> nat list \<times> 'g" where
  "rng_permutation np n g = rng_shuffle np g [0..<n]"

text \<open>
  What the library promises of \<^verbatim>\<open>shuffle\<close>: the result is a rearrangement of the argument.
\<close>

definition permuting :: "'g numpy_random \<Rightarrow> bool" where
  "permuting np = (\<forall>g xs. mset (fst (rng_shuffle np g xs)) = mset xs)"

text \<open>
  A small generator to run the definitions on: the state is a counter, a shuffle rotates the
  array by the counter plus one and advances the counter.
\<close>

definition rotating :: "nat numpy_random" where
  "rotating = \<lparr>RandomState = (\<lambda>s. s), rng_shuffle = (\<lambda>g xs. (rotate (Suc g) xs, Suc g))\<rparr>"

section \<open>The partitioner: \<^verbatim>\<open>KFold\<close> and \<^verbatim>\<open>train_test_split\<close>\<close>

record kfold =
  n_splits :: int
  shuffle :: bool
  random_state :: "nat option"

text \<open>
  \<^verbatim>\<open>KFold(n_splits, shuffle=, random_state=)\<close>: the constructor refuses \<^verbatim>\<open>n_splits <= 1\<close>,
  and a \<^verbatim>\<open>random_state\<close> without \<^verbatim>\<open>shuffle\<close>.
\<close>

definition KFold_init :: "int \<Rightarrow> bool \<Rightarrow> nat option \<Rightarrow> error + kfold" where
  "KFold_init k sh rs =
     (if k \<le> 1 then Inl ValueError
      else if \<not> sh \<and> rs \<noteq> None then Inl ValueError
      else Inr \<lparr>n_splits = k, shuffle = sh, random_state = rs\<rparr>)"

text \<open>
  \<^verbatim>\<open>fold_sizes = np.full(n_splits, n_samples // n_splits); fold_sizes[:n_samples % n_splits] += 1\<close>
\<close>

definition fold_sizes :: "nat \<Rightarrow> nat \<Rightarrow> nat list" where
  "fold_sizes n_samples k =
     map (\<lambda>i. n_samples div k + (if i < n_samples mod k then 1 else 0)) [0..<k]"

text \<open>
  The loop \<^verbatim>\<open>for fold_size in fold_sizes: start, stop = current, current + fold_size;
  yield indices[start:stop]; current = stop\<close>.
\<close>

fun test_slices :: "nat list \<Rightarrow> nat \<Rightarrow> nat list \<Rightarrow> nat list list" where
  "test_slices indices current [] = []"
| "test_slices indices current (fold_size # rest) =
     take fold_size (drop current indices) # test_slices indices (current + fold_size) rest"

definition iter_test_indices ::
  "'g numpy_random \<Rightarrow> kfold \<Rightarrow> nat \<Rightarrow> 'g \<Rightarrow> nat list list \<times> 'g" where
  "iter_test_indices np kf' n_samples glob =
     (let (indices, glob') =
            (if shuffle kf'
             then with_random_state np (random_state kf')
                    (\<lambda>rng. rng_shuffle np rng [0..<n_samples]) glob
             else ([0..<n_samples], glob))
      in (test_slices indices 0 (fold_sizes n_samples (nat (n_splits kf'))), glob'))"

text \<open>
  \<^verbatim>\<open>split(X)\<close> reads of \<open>X\<close> its number of rows only. It turns each slice into a boolean
  mask over \<^verbatim>\<open>arange(n_samples)\<close> and yields \<^verbatim>\<open>(indices[~mask], indices[mask])\<close>: both index
  arrays come out in increasing order. It raises when there are more splits than samples.
  \<open>kf'\<close> is the partitioner object the method is called on.
\<close>

definition fold_of_slice :: "nat \<Rightarrow> nat list \<Rightarrow> nat list \<times> nat list" where
  "fold_of_slice n_samples test =
     (filter (\<lambda>i. i \<notin> set test) [0..<n_samples], filter (\<lambda>i. i \<in> set test) [0..<n_samples])"

definition KFold_split ::
  "'g numpy_random \<Rightarrow> kfold \<Rightarrow> 'a list \<Rightarrow> 'g \<Rightarrow> (error + (nat list \<times> nat list) list) \<times> 'g" where
  "KFold_split np kf' X glob =
     (let n_samples = length X
      in if n_splits kf' > int n_samples then (Inl ValueError, glob)
         else (let (slices, glob') = iter_test_indices np kf' n_samples glob
               in (Inr (map (fold_of_slice n_samples) slices), glob')))"

text \<open>
  The partitioner of the evaluation loop, the same line in the three scripts:
  \<^verbatim>\<open>kf = KFold(n_splits=5, shuffle=True, random_state=1)\<close>.
\<close>

definition kf :: kfold where
  "kf = \<lparr>n_splits = 5, shuffle = True, random_state = Some 1\<rparr>"

text \<open>
  \<^verbatim>\<open>X[index]\<close> and \<^verbatim>\<open>y.iloc[index]\<close> with an index array: the rows at those positions, in the
  array's order; a position past the end raises.
\<close>

definition take_rows :: "'a list \<Rightarrow> nat list \<Rightarrow> error + 'a list" where
  "take_rows X index =
     (if list_all (\<lambda>i. i < length X) index then Inr (map (\<lambda>i. X ! i) index)
      else Inl IndexError)"

definition bind_error :: "error + 'a \<Rightarrow> ('a \<Rightarrow> error + 'b) \<Rightarrow> error + 'b" where
  "bind_error r f = (case r of Inl e \<Rightarrow> Inl e | Inr v \<Rightarrow> f v)"

text \<open>
  \<^verbatim>\<open>train_test_split(X, y, test_size=, random_state=)\<close>: a \<^verbatim>\<open>ShuffleSplit\<close> with
  \<^verbatim>\<open>n_test = ceil(test_size * n_samples)\<close> and \<^verbatim>\<open>n_train = n_samples - n_test\<close>; the test
  indices are the first \<^verbatim>\<open>n_test\<close> of a permutation, the train indices the next
  \<^verbatim>\<open>n_train\<close>.
\<close>

definition shuffle_split_indices ::
  "'g numpy_random \<Rightarrow> nat \<Rightarrow> real \<Rightarrow> nat option \<Rightarrow> 'g \<Rightarrow> (error + nat list \<times> nat list) \<times> 'g" where
  "shuffle_split_indices np n_samples test_size seed glob =
     (if n_samples = 0 then (Inl ValueError, glob)
      else if \<not> (0 < test_size \<and> test_size < 1) then (Inl ValueError, glob)
      else (let n_test = nat \<lceil>test_size * real n_samples\<rceil>;
                n_train = n_samples - n_test
            in if n_train = 0 then (Inl ValueError, glob)
               else (let (permutation, glob') =
                           with_random_state np seed (rng_permutation np n_samples) glob;
                         ind_test = take n_test permutation;
                         ind_train = take n_train (drop n_test permutation)
                     in (Inr (ind_train, ind_test), glob'))))"

definition train_test_split ::
  "'g numpy_random \<Rightarrow> 'a list \<Rightarrow> 'b list \<Rightarrow> real \<Rightarrow> nat option \<Rightarrow> 'g
     \<Rightarrow> (error + 'a list \<times> 'a list \<times> 'b list \<times> 'b list) \<times> 'g" where
  "train_test_split np X y test_size seed glob =
     (if length y \<noteq> length X then (Inl ValueError, glob)
      else (case shuffle_split_indices np (length X) test_size seed glob of
              (Inl e, glob') \<Rightarrow> (Inl e, glob')
            | (Inr (train, test), glob') \<Rightarrow>
                (bind_error (take_rows X train) (\<lambda>X_train.
                 bind_error (take_rows X test) (\<lambda>X_test.
                 bind_error (take_rows y train) (\<lambda>y_train.
                 bind_error (take_rows y test) (\<lambda>y_test.
                 Inr (X_train, X_test, y_train, y_test))))), glob')))"

section \<open>Feature scaling: \<^verbatim>\<open>StandardScaler\<close>\<close>

text \<open>
  Floating-point numbers are modelled as real numbers: rounding is left out. A matrix is the
  list of its rows.
\<close>

definition mean :: "real list \<Rightarrow> real" where
  "mean xs = sum_list xs / real (length xs)"

definition column :: "real list list \<Rightarrow> nat \<Rightarrow> real list" where
  "column X j = map (\<lambda>row. row ! j) X"

text \<open>The fitted attributes \<^verbatim>\<open>mean_\<close> and \<^verbatim>\<open>scale_\<close>.\<close>

record standard_scaler =
  scaler_mean :: "real list"
  scaler_scale :: "real list"

text \<open>
  The machine epsilon of a double, \<^verbatim>\<open>np.finfo(np.float64).eps\<close>.
\<close>

definition float_eps :: real where
  "float_eps = 1 / 2 ^ 52"

text \<open>
  \<^verbatim>\<open>_is_constant_feature(var, mean, n_samples)\<close> of scikit-learn: a column counts as constant
  when its variance is within the bound
  \<^verbatim>\<open>n_samples * eps * var + (n_samples * mean * eps) ** 2\<close>.
\<close>

definition is_constant_feature :: "real \<Rightarrow> real \<Rightarrow> nat \<Rightarrow> bool" where
  "is_constant_feature var m n_samples =
     (var \<le> real n_samples * float_eps * var + (real n_samples * m * float_eps)\<^sup>2)"

text \<open>
  \<^verbatim>\<open>fit\<close>: per column the mean and the variance (of the population: divided by the number of
  rows) of the rows it is given; \<^verbatim>\<open>scale_\<close> is the square root of the variance, and 1 for
  the columns that count as constant (\<^verbatim>\<open>_handle_zeros_in_scale\<close> with the constant mask),
  among them every column of zero variance. An array with no rows, with no columns or with
  ragged rows raises.
\<close>

definition column_scale :: "real list \<Rightarrow> real" where
  "column_scale xs =
     (let m = mean xs;
          var = mean (map (\<lambda>x. (x - m)\<^sup>2) xs)
      in if is_constant_feature var m (length xs) then 1 else sqrt var)"

definition StandardScaler_fit :: "real list list \<Rightarrow> error + standard_scaler" where
  "StandardScaler_fit X =
     (case X of
        [] \<Rightarrow> Inl ValueError
      | row0 # _ \<Rightarrow>
          if row0 = [] \<or> \<not> list_all (\<lambda>row. length row = length row0) X then Inl ValueError
          else Inr \<lparr>scaler_mean = map (\<lambda>j. mean (column X j)) [0..<length row0],
                    scaler_scale = map (\<lambda>j. column_scale (column X j)) [0..<length row0]\<rparr>)"

definition transform_row :: "standard_scaler \<Rightarrow> real list \<Rightarrow> real list" where
  "transform_row sc row = map (\<lambda>j. (row ! j - scaler_mean sc ! j) / scaler_scale sc ! j) [0..<length row]"

definition StandardScaler_transform :: "standard_scaler \<Rightarrow> real list list \<Rightarrow> error + real list list" where
  "StandardScaler_transform sc X =
     (if X \<noteq> [] \<and> list_all (\<lambda>row. length row = length (scaler_mean sc)) X
      then Inr (map (transform_row sc) X)
      else Inl ValueError)"

definition fit_transform :: "real list list \<Rightarrow> error + real list list" where
  "fit_transform X = bind_error (StandardScaler_fit X) (\<lambda>sc. StandardScaler_transform sc X)"

section \<open>The metric evaluator\<close>

text \<open>
  \<^verbatim>\<open>r2_score\<close> returns \<^verbatim>\<open>nan\<close> (with a warning) on fewer than two samples; every other
  result here is a number.
\<close>

datatype py_float = Float real | NaN

text \<open>The scikit-learn metrics refuse arrays of different lengths and empty arrays.\<close>

definition check_targets :: "real list \<Rightarrow> real list \<Rightarrow> error + unit" where
  "check_targets y_true y_pred =
     (if length y_true \<noteq> length y_pred \<or> y_true = [] then Inl ValueError else Inr ())"

definition mean_squared_error :: "real list \<Rightarrow> real list \<Rightarrow> error + real" where
  "mean_squared_error y_true y_pred =
     bind_error (check_targets y_true y_pred)
       (\<lambda>_. Inr (mean (map2 (\<lambda>t p. (t - p)\<^sup>2) y_true y_pred)))"

definition mean_absolute_error :: "real list \<Rightarrow> real list \<Rightarrow> error + real" where
  "mean_absolute_error y_true y_pred =
     bind_error (check_targets y_true y_pred)
       (\<lambda>_. Inr (mean (map2 (\<lambda>t p. \<bar>p - t\<bar>) y_true y_pred)))"

text \<open>
  \<^verbatim>\<open>r2_score\<close>: \<open>1 - SS_res / SS_tot\<close> where both sums are nonzero; where \<open>SS_tot\<close> is
  zero the score is 0 for a nonzero \<open>SS_res\<close>, and it is 1 whenever \<open>SS_res\<close> is zero.
\<close>

definition r2_score :: "real list \<Rightarrow> real list \<Rightarrow> error + py_float" where
  "r2_score y_true y_pred =
     bind_error (check_targets y_true y_pred)
       (\<lambda>_. if length y_true < 2 then Inr NaN
            else (let numerator = sum_list (map2 (\<lambda>t p. (t - p)\<^sup>2) y_true y_pred);
                      denominator = sum_list (map (\<lambda>t. (t - mean y_true)\<^sup>2) y_true)
                  in Inr (Float (if numerator \<noteq> 0 \<and> denominator \<noteq> 0
                                 then 1 - numerator / denominator
                                 else if numerator \<noteq> 0 then 0 else 1))))"

record metric_record =
  rmse :: real
  r2 :: py_float
  mae :: real

text \<open>
  The three lines every evaluation point of the scripts repeats:
  \<^verbatim>\<open>np.sqrt(mean_squared_error(y, p))\<close>, \<^verbatim>\<open>r2_score(y, p)\<close>, \<^verbatim>\<open>mean_absolute_error(y, p)\<close>.
  The scripts interleave the lines for the training and the test part; the three metrics
  raise on the same inputs with the same exception, so the order does not show.
\<close>

definition evaluate :: "real list \<Rightarrow> real list \<Rightarrow> error + metric_record" where
  "evaluate y_true y_pred =
     bind_error (mean_squared_error y_true y_pred) (\<lambda>mse.
     bind_error (r2_score y_true y_pred) (\<lambda>r2_value.
     bind_error (mean_absolute_error y_true y_pred) (\<lambda>mae_value.
     Inr \<lparr>rmse = sqrt mse, r2 = r2_value, mae = mae_value\<rparr>)))"

section \<open>The regressor and the evaluation loop\<close>

text \<open>
  A backend regressor is opaque: \<open>fit\<close> takes the state of the model object and returns the
  state it leaves in the same object (scikit-learn's \<^verbatim>\<open>fit\<close> trains in place), \<open>predict\<close>
  reads it; either may raise.
\<close>

record 'm regressor =
  fit :: "'m \<Rightarrow> real list list \<Rightarrow> real list \<Rightarrow> error + 'm"
  predict :: "'m \<Rightarrow> real list list \<Rightarrow> error + real list"

text \<open>The dictionary \<^verbatim>\<open>metrics\<close>: six fixed keys, each a list that grows by \<^verbatim>\<open>append\<close>.\<close>

record metrics =
  train_rmse :: "py_float list"
  test_rmse :: "py_float list"
  train_r2 :: "py_float list"
  test_r2 :: "py_float list"
  train_mae :: "py_float list"
  test_mae :: "py_float list"

definition metrics_init :: metrics where
  "metrics_init = \<lparr>train_rmse = [], test_rmse = [], train_r2 = [], test_r2 = [],
                    train_mae = [], test_mae = []\<rparr>"

definition append_metrics :: "metric_record \<Rightarrow> metric_record \<Rightarrow> metrics \<Rightarrow> metrics" where
  "append_metrics tr te ms =
     \<lparr>train_rmse = train_rmse ms @ [Float (rmse tr)], test_rmse = test_rmse ms @ [Float (rmse te)],
      train_r2 = train_r2 ms @ [r2 tr], test_r2 = test_r2 ms @ [r2 te],
      train_mae = train_mae ms @ [Float (mae tr)], test_mae = test_mae ms @ [Float (mae te)]\<rparr>"

text \<open>
  The body of the inner loop, for one \<^verbatim>\<open>(train_index, test_index)\<close>: the model object is
  fitted in place on the fold's training rows, predicts both parts, and the six metrics are
  appended. The state is the model object and the dictionary.
\<close>

definition evaluate_fold ::
  "'m regressor \<Rightarrow> real list list \<Rightarrow> real list \<Rightarrow> nat list \<times> nat list \<Rightarrow> 'm \<times> metrics
     \<Rightarrow> error + 'm \<times> metrics" where
  "evaluate_fold be X_scaled y idx st =
     (case (idx, st) of ((train_index, test_index), (model, ms)) \<Rightarrow>
        bind_error (take_rows X_scaled train_index) (\<lambda>X_train_kf.
        bind_error (take_rows X_scaled test_index) (\<lambda>X_test_kf.
        bind_error (take_rows y train_index) (\<lambda>y_train_kf.
        bind_error (take_rows y test_index) (\<lambda>y_test_kf.
        bind_error (fit be model X_train_kf y_train_kf) (\<lambda>model'.
        bind_error (predict be model' X_train_kf) (\<lambda>y_train_pred_kf.
        bind_error (predict be model' X_test_kf) (\<lambda>y_test_pred_kf.
        bind_error (evaluate y_train_kf y_train_pred_kf) (\<lambda>tr.
        bind_error (evaluate y_test_kf y_test_pred_kf) (\<lambda>te.
        Inr (model', append_metrics tr te ms)))))))))))"

text \<open>\<^verbatim>\<open>for train_index, test_index in kf.split(X_scaled): ...\<close>\<close>

fun fold_loop ::
  "'m regressor \<Rightarrow> real list list \<Rightarrow> real list \<Rightarrow> (nat list \<times> nat list) list \<Rightarrow> 'm \<times> metrics
     \<Rightarrow> error + 'm \<times> metrics" where
  "fold_loop be X_scaled y [] st = Inr st"
| "fold_loop be X_scaled y (idx # folds) st =
     bind_error (evaluate_fold be X_scaled y idx st) (fold_loop be X_scaled y folds)"

text \<open>
  \<^verbatim>\<open>for i in range(R): for train_index, test_index in kf.split(X_scaled): ...\<close>, with the
  one partitioner object \<^verbatim>\<open>kf\<close> built before the loop; \<open>i\<close> is not used in the body. The
  state adds the process-wide generator, which \<^verbatim>\<open>kf.split\<close> may draw from.
\<close>

fun evaluation_loop ::
  "'g numpy_random \<Rightarrow> 'm regressor \<Rightarrow> kfold \<Rightarrow> real list list \<Rightarrow> real list \<Rightarrow> nat
     \<Rightarrow> 'g \<times> 'm \<times> metrics \<Rightarrow> error + 'g \<times> 'm \<times> metrics" where
  "evaluation_loop np be kf' X_scaled y 0 st = Inr st"
| "evaluation_loop np be kf' X_scaled y (Suc i) st =
     (case st of (glob, model, ms) \<Rightarrow>
        (case KFold_split np kf' X_scaled glob of
           (Inl e, glob') \<Rightarrow> Inl e
         | (Inr folds, glob') \<Rightarrow>
             bind_error (fold_loop be X_scaled y folds (model, ms))
               (\<lambda>(model', ms'). evaluation_loop np be kf' X_scaled y i (glob', model', ms'))))"

text \<open>
  What the loop draws: the state of the process-wide generator when repetition \<open>r\<close> starts,
  and the result of \<^verbatim>\<open>kf.split(X_scaled)\<close> at repetition \<open>r\<close>.
\<close>

fun glob_at :: "'g numpy_random \<Rightarrow> kfold \<Rightarrow> 'a list \<Rightarrow> 'g \<Rightarrow> nat \<Rightarrow> 'g" where
  "glob_at np kf' X glob 0 = glob"
| "glob_at np kf' X glob (Suc r) = glob_at np kf' X (snd (KFold_split np kf' X glob)) r"

definition repetition_split ::
  "'g numpy_random \<Rightarrow> kfold \<Rightarrow> 'a list \<Rightarrow> 'g \<Rightarrow> nat \<Rightarrow> error + (nat list \<times> nat list) list" where
  "repetition_split np kf' X glob r = fst (KFold_split np kf' X (glob_at np kf' X glob r))"

text \<open>
  \<^verbatim>\<open>pd.DataFrame(metrics)\<close>: one column per key, in the dictionary's order, one row per
  position of the lists; lists of different lengths raise.
\<close>

record data_frame =
  columns :: "string list"
  column_values :: "py_float list list"

definition DataFrame :: "metrics \<Rightarrow> error + data_frame" where
  "DataFrame ms =
     (let items = [(''train_rmse'', train_rmse ms), (''test_rmse'', test_rmse ms),
                   (''train_r2'', train_r2 ms), (''test_r2'', test_r2 ms),
                   (''train_mae'', train_mae ms), (''test_mae'', test_mae ms)]
      in if list_all (\<lambda>(key, values). length values = length (train_rmse ms)) items
         then Inr \<lparr>columns = map fst items, column_values = map snd items\<rparr>
         else Inl ValueError)"

definition rows :: "data_frame \<Rightarrow> py_float list list" where
  "rows df = (case column_values df of
                [] \<Rightarrow> []
              | c # _ \<Rightarrow> map (\<lambda>i. map (\<lambda>values. values ! i) (column_values df)) [0..<length c])"

section \<open>The hyperparameter search and the scripts\<close>

datatype backend = CatBoost | AdaBoost | LightGBM

text \<open>
  The arguments of \<^verbatim>\<open>BayesSearchCV\<close> that differ between the scripts or matter to the
  search's randomness. The estimator and the search space are part of the opaque search.
\<close>

record bayes_search_cv =
  n_iter :: nat
  cv :: nat
  search_random_state :: "nat option"

text \<open>
  Line 43 of \<^verbatim>\<open>part_000\<close> and line 40 of \<^verbatim>\<open>AdaBoost.ipynb\<close> pass no \<^verbatim>\<open>random_state\<close>;
  line 44 of \<^verbatim>\<open>LGBM.ipynb\<close> passes \<^verbatim>\<open>random_state=1\<close>.
\<close>

definition optimizer :: "backend \<Rightarrow> bayes_search_cv" where
  "optimizer b =
     (case b of
        CatBoost \<Rightarrow> \<lparr>n_iter = 32, cv = 5, search_random_state = None\<rparr>
      | AdaBoost \<Rightarrow> \<lparr>n_iter = 32, cv = 5, search_random_state = None\<rparr>
      | LightGBM \<Rightarrow> \<lparr>n_iter = 32, cv = 5, search_random_state = Some 1\<rparr>)"

text \<open>
  \<^verbatim>\<open>optimizer.fit(X_train, y_train)\<close> followed by \<^verbatim>\<open>optimizer.best_params_\<close>. The search
  itself (the surrogate model, the acquisition function, the cross-validated scoring) is a
  parameter \<open>search\<close>: given the generator it draws its candidates from, the trial budget, the
  fold count and the data, it returns the best configuration and the advanced generator.
  Which generator it is given is scikit-optimize's \<^verbatim>\<open>check_random_state(self.random_state)\<close>.
\<close>

definition BayesSearchCV_fit ::
  "'g numpy_random \<Rightarrow> ('g \<Rightarrow> nat \<Rightarrow> nat \<Rightarrow> real list list \<Rightarrow> real list \<Rightarrow> (error + 'p) \<times> 'g)
     \<Rightarrow> bayes_search_cv \<Rightarrow> real list list \<Rightarrow> real list \<Rightarrow> 'g \<Rightarrow> (error + 'p) \<times> 'g" where
  "BayesSearchCV_fit np search opt X_train y_train glob =
     with_random_state np (search_random_state opt)
       (\<lambda>rng. search rng (n_iter opt) (cv opt) X_train y_train) glob"

text \<open>
  Section 3 of the scripts: \<^verbatim>\<open>X_scaled = scaler.fit_transform(X)\<close> on the whole feature
  matrix, then \<^verbatim>\<open>train_test_split(X_scaled, y, test_size=0.2, random_state=1)\<close>.
\<close>

definition preprocess ::
  "'g numpy_random \<Rightarrow> real list list \<Rightarrow> real list \<Rightarrow> 'g
     \<Rightarrow> (error + real list list \<times> real list list \<times> real list list \<times> real list \<times> real list) \<times> 'g" where
  "preprocess np X y glob =
     (case fit_transform X of
        Inl e \<Rightarrow> (Inl e, glob)
      | Inr X_scaled \<Rightarrow>
          (case train_test_split np X_scaled y 0.2 (Some 1) glob of
             (Inl e, glob') \<Rightarrow> (Inl e, glob')
           | (Inr (X_train, X_test, y_train, y_test), glob') \<Rightarrow>
               (Inr (X_scaled, X_train, X_test, y_train, y_test), glob')))"

text \<open>
  The number of passes of the evaluation loop: \<^verbatim>\<open>for i in range(1000)\<close> in \<^verbatim>\<open>part_000\<close>
  and \<^verbatim>\<open>AdaBoost.ipynb\<close>; \<^verbatim>\<open>LGBM.ipynb\<close> has the inner loop only, which is one pass.
\<close>

definition repetitions :: "backend \<Rightarrow> nat" where
  "repetitions b = (case b of CatBoost \<Rightarrow> 1000 | AdaBoost \<Rightarrow> 1000 | LightGBM \<Rightarrow> 1)"

record ('m, 'p) script_result =
  best_params :: 'p
  holdout_train :: metric_record
  holdout_test :: metric_record
  results_df :: data_frame
  final_model :: 'm

text \<open>
  A script from its first line to the table of the evaluation loop, for an optimizer
  configuration \<open>opt\<close> and \<open>R\<close> passes of the loop. \<^verbatim>\<open>np.random.seed(1)\<close> seeds the
  process-wide generator; \<open>new_regressor\<close> builds the regressor from the best parameters
  (\<^verbatim>\<open>CatBoostRegressor(**best_params, random_state=1, verbose=0)\<close>); that one object is
  fitted on the training part of the single split, evaluated, and then handed to the
  evaluation loop. \<open>final_model\<close> is the state of that object after the loop: what
  \<^verbatim>\<open>shap.TreeExplainer(catboost_optimized)\<close> at the end of \<^verbatim>\<open>part_000\<close> is given.
  \<open>X\<close> is the feature matrix as it is after the spreadsheet is read and the three columns
  are dropped, \<open>y\<close> the target column; reading and the spreadsheet exports are left out.
\<close>

definition run_script ::
  "'g numpy_random \<Rightarrow> ('g \<Rightarrow> nat \<Rightarrow> nat \<Rightarrow> real list list \<Rightarrow> real list \<Rightarrow> (error + 'p) \<times> 'g)
     \<Rightarrow> ('p \<Rightarrow> 'm) \<Rightarrow> 'm regressor \<Rightarrow> bayes_search_cv \<Rightarrow> nat \<Rightarrow> real list list \<Rightarrow> real list
     \<Rightarrow> error + ('m, 'p) script_result" where
  "run_script np search new_regressor be opt R X y =
     (case preprocess np X y (RandomState np 1) of
        (Inl e, glob1) \<Rightarrow> Inl e
      | (Inr (X_scaled, X_train, X_test, y_train, y_test), glob1) \<Rightarrow>
     (case BayesSearchCV_fit np search opt X_train y_train glob1 of
        (Inl e, glob2) \<Rightarrow> Inl e
      | (Inr best, glob2) \<Rightarrow>
          bind_error (fit be (new_regressor best) X_train y_train) (\<lambda>model.
          bind_error (predict be model X_train) (\<lambda>y_pred_train.
          bind_error (predict be model X_test) (\<lambda>y_pred_test.
          bind_error (evaluate y_train y_pred_train) (\<lambda>tr.
          bind_error (evaluate y_test y_pred_test) (\<lambda>te.
          bind_error (KFold_init 5 True (Some 1)) (\<lambda>kf'.
          bind_error (evaluation_loop np be kf' X_scaled y R (glob2, model, metrics_init))
            (\<lambda>(glob3, model', ms).
          bind_error (DataFrame ms) (\<lambda>df.
          Inr \<lparr>best_params = best, holdout_train = tr, holdout_test = te,
               results_df = df, final_model = model'\<rparr>))))))))))"

definition script ::
  "'g numpy_random \<Rightarrow> ('g \<Rightarrow> nat \<Rightarrow> nat \<Rightarrow> real list list \<Rightarrow> real list \<Rightarrow> (error + 'p) \<times> 'g)
     \<Rightarrow> ('p \<Rightarrow> 'm) \<Rightarrow> 'm regressor \<Rightarrow> backend \<Rightarrow> real list list \<Rightarrow> real list
     \<Rightarrow> error + ('m, 'p) script_result" where
  "script np search new_regressor be b X y =
     run_script np search new_regressor be (optimizer b) (repetitions b) X y"

section \<open>Stand-ins to run the definitions on\<close>

text \<open>
  A regressor that predicts the mean of the targets it was fitted on, and one that does the
  same but raises when no target of its training rows is 7.
\<close>

definition mean_regressor :: "real regressor" where
  "mean_regressor = \<lparr>fit = (\<lambda>m X y. Inr (mean y)),
                      predict = (\<lambda>m X. Inr (replicate (length X) m))\<rparr>"

definition picky_regressor :: "real regressor" where
  "picky_regressor = \<lparr>fit = (\<lambda>m X y. if 7 \<in> set y then Inr (mean y) else Inl BackendError),
                       predict = (\<lambda>m X. Inr (replicate (length X) m))\<rparr>"

text \<open>A search that returns, as the best configuration, the first candidate it draws.\<close>

definition first_draw_search ::
  "nat \<Rightarrow> nat \<Rightarrow> nat \<Rightarrow> real list list \<Rightarrow> real list \<Rightarrow> (error + nat) \<times> nat" where
  "first_draw_search rng trials folds X_train y_train =
     (case rng_shuffle rotating rng [0..<trials] of
        (candidates, rng') \<Rightarrow>
          (case candidates of [] \<Rightarrow> Inl ValueError | c # _ \<Rightarrow> Inr c, rng'))"

section \<open>Vocabulary of the statements\<close>

text \<open>The lengths of the six lists of the dictionary, in the order of its keys.\<close>

definition column_lengths :: "metrics \<Rightarrow> nat list" where
  "column_lengths ms =
     [length (train_rmse ms), length (test_rmse ms), length (train_r2 ms), length (test_r2 ms),
      length (train_mae ms), length (test_mae ms)]"

text \<open>A regressor whose \<^verbatim>\<open>fit\<close> and \<^verbatim>\<open>predict\<close> never raise, and that predicts one value per row.\<close>

definition never_fails :: "'m regressor \<Rightarrow> bool" where
  "never_fails be =
     ((\<forall>m X y. \<exists>m'. fit be m X y = Inr m')
      \<and> (\<forall>m X. \<exists>p. predict be m X = Inr p \<and> length p = length X))"

section \<open>Properties of the partitioner\<close>

lemma mset_rotate1: "mset (rotate1 xs) = mset xs"
  by (cases xs) simp_all

lemma mset_rotate_any: "mset (rotate n xs) = mset xs"
  by (induction n) (simp_all add: mset_rotate1)

lemma rotating_permuting: "permuting rotating"
  by (simp add: permuting_def rotating_def mset_rotate1 mset_rotate_any)

lemma sum_list_fold_sizes: "sum_list (fold_sizes n k) = (if k = 0 then 0 else n)"
proof (cases "k = 0")
  case True
  then show ?thesis by (simp add: fold_sizes_def)
next
  case False
  have "sum_list (fold_sizes n k) = (\<Sum>i = 0..<k. n div k + (if i < n mod k then 1 else 0))"
    by (simp add: fold_sizes_def sum_list_sum_nth atLeast0LessThan)
  also have "\<dots> = k * (n div k) + (\<Sum>i = 0..<k. if i < n mod k then 1 else 0)"
    by (simp add: sum.distrib)
  also have "(\<Sum>i = 0..<k. if i < n mod k then 1 else (0::nat)) = card {i \<in> {0..<k}. i < n mod k}"
    by (simp add: sum.If_cases Int_def)
  also have "{i \<in> {0..<k}. i < n mod k} = {0..<n mod k}"
    using False by (auto intro: less_trans [OF _ mod_less_divisor])
  finally show ?thesis using False by simp
qed

lemma concat_test_slices:
  "concat (test_slices xs c sizes) = take (sum_list sizes) (drop c xs)"
proof (induction sizes arbitrary: c)
  case Nil
  then show ?case by simp
next
  case (Cons s sizes)
  have "take s (drop c xs) @ take (sum_list sizes) (drop (c + s) xs)
          = take (s + sum_list sizes) (drop c xs)"
    by (simp add: take_add add.commute)
  with Cons show ?case by simp
qed

lemma length_test_slices: "length (test_slices xs c sizes) = length sizes"
  by (induction sizes arbitrary: c) simp_all

lemma map_length_test_slices:
  "c + sum_list sizes \<le> length xs \<Longrightarrow> map length (test_slices xs c sizes) = sizes"
proof (induction sizes arbitrary: c)
  case Nil
  then show ?case by simp
next
  case (Cons s sizes)
  from Cons.prems have "(c + s) + sum_list sizes \<le> length xs" by simp
  from Cons.IH [OF this] Cons.prems show ?case by simp
qed

lemma mset_filter_member:
  assumes "distinct s" and "set s \<subseteq> {0..<n}"
  shows "mset (filter (\<lambda>i. i \<in> set s) [0..<n]) = mset s"
proof -
  have d: "distinct (filter (\<lambda>i. i \<in> set s) [0..<n])" by simp
  have e: "set (filter (\<lambda>i. i \<in> set s) [0..<n]) = set s" using assms(2) by auto
  from set_eq_iff_mset_eq_distinct [OF d assms(1)] e show ?thesis by blast
qed

lemma mset_test_of_slice:
  assumes "distinct s" and "set s \<subseteq> {0..<n}"
  shows "mset (snd (fold_of_slice n s)) = mset s"
  unfolding fold_of_slice_def snd_conv using assms by (rule mset_filter_member)

lemma fold_of_slice_cover:
  "set (fst (fold_of_slice n s)) \<union> set (snd (fold_of_slice n s)) = {0..<n}"
  "set (fst (fold_of_slice n s)) \<inter> set (snd (fold_of_slice n s)) = {}"
  "length (fst (fold_of_slice n s)) + length (snd (fold_of_slice n s)) = n"
proof -
  show "set (fst (fold_of_slice n s)) \<union> set (snd (fold_of_slice n s)) = {0..<n}"
    by (auto simp: fold_of_slice_def)
  show "set (fst (fold_of_slice n s)) \<inter> set (snd (fold_of_slice n s)) = {}"
    by (auto simp: fold_of_slice_def)
  have "length (filter (\<lambda>i. i \<in> set s) [0..<n]) + length (filter (\<lambda>i. i \<notin> set s) [0..<n])
          = length [0..<n]"
    by (rule sum_length_filter_compl)
  then show "length (fst (fold_of_slice n s)) + length (snd (fold_of_slice n s)) = n"
    by (simp add: fold_of_slice_def)
qed

text \<open>What a shuffle that rearranges gives \<^verbatim>\<open>split\<close> to slice: a permutation of the index range.\<close>

lemma shuffled_indices:
  assumes "permuting np"
  shows "mset (fst (if shuffle kf'
                    then with_random_state np (random_state kf')
                           (\<lambda>rng. rng_shuffle np rng [0..<n]) glob
                    else ([0..<n], glob))) = mset [0..<n]"
  using assms by (simp add: permuting_def with_random_state_def split: option.splits)

text \<open>The slices of a permutation of the index range, cut at sizes that add up to its length.\<close>

lemma slices_of_permutation:
  assumes perm: "mset indices = mset [0..<n]" and total: "sum_list sizes = n"
  shows "mset (concat (map (\<lambda>s. snd (fold_of_slice n s)) (test_slices indices 0 sizes)))
           = mset [0..<n]"
    and "distinct (concat (test_slices indices 0 sizes))"
    and "map (\<lambda>s. length (snd (fold_of_slice n s))) (test_slices indices 0 sizes) = sizes"
proof -
  have len: "length indices = n"
    using perm by (metis length_upt mset_eq_length minus_nat.diff_0)
  have dist: "distinct indices"
    using perm by (metis distinct_upt mset_eq_imp_distinct_iff)
  have sub: "set indices = {0..<n}"
    using perm by (metis mset_eq_setD set_upt)
  have whole: "concat (test_slices indices 0 sizes) = indices"
    by (simp add: concat_test_slices total len)
  show d: "distinct (concat (test_slices indices 0 sizes))"
    by (simp add: whole dist)
  have each: "distinct s \<and> set s \<subseteq> {0..<n}" if "s \<in> set (test_slices indices 0 sizes)" for s
  proof -
    have "set s \<subseteq> set (concat (test_slices indices 0 sizes))" using that by auto
    moreover have "distinct s"
    proof -
      from that obtain pre post where "test_slices indices 0 sizes = pre @ s # post"
        by (auto simp: in_set_conv_decomp)
      with d show ?thesis by simp
    qed
    ultimately show ?thesis by (simp add: whole sub)
  qed
  have "mset (concat (map (\<lambda>s. snd (fold_of_slice n s)) (test_slices indices 0 sizes)))
          = (\<Sum>s\<leftarrow>test_slices indices 0 sizes. mset (snd (fold_of_slice n s)))"
    by (simp add: mset_concat comp_def)
  also have "\<dots> = (\<Sum>s\<leftarrow>test_slices indices 0 sizes. mset s)"
    by (rule arg_cong [where f = sum_list], rule map_cong [OF refl])
       (simp add: mset_test_of_slice each)
  also have "\<dots> = mset (concat (test_slices indices 0 sizes))"
    by (simp add: mset_concat comp_def)
  finally show "mset (concat (map (\<lambda>s. snd (fold_of_slice n s)) (test_slices indices 0 sizes)))
                  = mset [0..<n]"
    by (simp add: whole perm)
  have "map (\<lambda>s. length (snd (fold_of_slice n s))) (test_slices indices 0 sizes)
          = map length (test_slices indices 0 sizes)"
  proof (rule map_cong [OF refl])
    fix s assume "s \<in> set (test_slices indices 0 sizes)"
    then have "mset (snd (fold_of_slice n s)) = mset s"
      by (simp add: mset_test_of_slice each)
    then show "length (snd (fold_of_slice n s)) = length s"
      by (rule mset_eq_length)
  qed
  also have "\<dots> = sizes"
    by (rule map_length_test_slices) (simp add: total len)
  finally show "map (\<lambda>s. length (snd (fold_of_slice n s))) (test_slices indices 0 sizes) = sizes" .
qed

lemma distinct_concat_nth_disjoint:
  assumes "distinct (concat xss)" and "i < j" and "j < length xss"
  shows "set (xss ! i) \<inter> set (xss ! j) = {}"
proof -
  have "xss = take j xss @ xss ! j # drop (Suc j) xss"
    using assms(3) by (rule id_take_nth_drop)
  then have "concat xss = concat (take j xss) @ xss ! j @ concat (drop (Suc j) xss)"
    by (metis concat.simps(2) concat_append)
  with assms(1) have "set (concat (take j xss)) \<inter> set (xss ! j) = {}"
    by auto
  moreover have "xss ! i \<in> set (take j xss)"
    using assms(2,3) by (metis length_take less_imp_le min.absorb2 nth_mem nth_take)
  ultimately show ?thesis by auto
qed

lemma kf_init: "KFold_init 5 True (Some 1) = Inr kf"
  by (simp add: KFold_init_def kf_def)

lemma KFold_split_Inr:
  assumes "KFold_split np kf' X glob = (Inr folds, glob')"
  shows "folds = map (fold_of_slice (length X))
                   (test_slices
                      (fst (if shuffle kf'
                            then with_random_state np (random_state kf')
                                   (\<lambda>rng. rng_shuffle np rng [0..<length X]) glob
                            else ([0..<length X], glob)))
                      0 (fold_sizes (length X) (nat (n_splits kf'))))"
    and "n_splits kf' \<le> int (length X)"
  using assms
  by (auto simp: KFold_split_def iter_test_indices_def Let_def split: if_splits prod.splits)

lemma KFold_split_length:
  assumes "KFold_split np kf' X glob = (Inr folds, glob')"
  shows "length folds = nat (n_splits kf')"
  unfolding KFold_split_Inr(1) [OF assms]
  by (simp add: length_test_slices fold_sizes_def)

lemma KFold_split_tests:
  assumes perm: "permuting np"
      and init: "KFold_init k sh rs = Inr kf'"
      and split: "KFold_split np kf' X glob = (Inr folds, glob')"
  shows "mset (concat (map snd folds)) = mset [0..<length X]"
    and "map (\<lambda>idx. length (snd idx)) folds = fold_sizes (length X) (nat k)"
    and "n_splits kf' = k" and "2 \<le> k" and "k \<le> int (length X)"
proof -
  define n where "n = length X"
  define indices where
    "indices = fst (if shuffle kf'
                    then with_random_state np (random_state kf')
                           (\<lambda>rng. rng_shuffle np rng [0..<n]) glob
                    else ([0..<n], glob))"
  define sizes where "sizes = fold_sizes n (nat k)"
  from init show k: "n_splits kf' = k" "2 \<le> k"
    by (auto simp: KFold_init_def split: if_splits)
  from KFold_split_Inr(2) [OF split] k show "k \<le> int (length X)" by simp
  from KFold_split_Inr(1) [OF split]
  have folds: "folds = map (fold_of_slice n) (test_slices indices 0 sizes)"
    by (simp add: n_def indices_def sizes_def k)
  have p: "mset indices = mset [0..<n]"
    unfolding indices_def using perm by (rule shuffled_indices)
  have total: "sum_list sizes = n"
    using k(2) by (simp add: sizes_def sum_list_fold_sizes)
  have "map snd folds = map (\<lambda>s. snd (fold_of_slice n s)) (test_slices indices 0 sizes)"
    by (simp add: folds comp_def)
  with slices_of_permutation(1) [OF p total]
  show "mset (concat (map snd folds)) = mset [0..<length X]"
    by (simp add: n_def)
  have "map (\<lambda>idx. length (snd idx)) folds
          = map (\<lambda>s. length (snd (fold_of_slice n s))) (test_slices indices 0 sizes)"
    by (simp add: folds comp_def)
  with slices_of_permutation(3) [OF p total]
  show "map (\<lambda>idx. length (snd idx)) folds = fold_sizes (length X) (nat k)"
    by (simp add: n_def sizes_def)
qed

lemma KFold_split_fold:
  assumes "KFold_split np kf' X glob = (Inr folds, glob')" and "(train, test) \<in> set folds"
  shows "set train = {0..<length X} - set test" and "set test \<subseteq> {0..<length X}"
    and "length train + length test = length X"
proof -
  from assms obtain s where "(train, test) = fold_of_slice (length X) s"
    unfolding KFold_split_Inr(1) [OF assms(1)] by auto
  then have tt: "train = fst (fold_of_slice (length X) s)" "test = snd (fold_of_slice (length X) s)"
    by (metis fst_conv, metis snd_conv)
  from fold_of_slice_cover [of "length X" s]
  show "set train = {0..<length X} - set test" and "set test \<subseteq> {0..<length X}"
    and "length train + length test = length X"
    unfolding tt by blast+
qed

text \<open>
  C7. The test index sets of a K-fold partition of N samples: there are K of them, every
  index of \<open>0..<N\<close> is in exactly one (as multisets, the test sets together are the index
  range), so they are pairwise disjoint and their union is the range; the train indices of a
  fold are the others. With N = 100 and K = 5 every fold has 20 test and 80 train indices.
  The shuffle is assumed to rearrange its argument, and the partitioner to be one its
  constructor accepts.
\<close>

theorem kfold_test_sets_partition:
  assumes perm: "permuting np"
      and init: "KFold_init k sh rs = Inr kf'"
      and split: "KFold_split np kf' X glob = (Inr folds, glob')"
  shows "length folds = nat k
       \<and> mset (concat (map snd folds)) = mset [0..<length X]
       \<and> (\<forall>i<length folds. \<forall>j<length folds. i \<noteq> j \<longrightarrow>
            set (snd (folds ! i)) \<inter> set (snd (folds ! j)) = {})
       \<and> (\<Union>idx\<in>set folds. set (snd idx)) = {0..<length X}
       \<and> (\<forall>(train, test)\<in>set folds.
            set train = {0..<length X} - set test \<and> length train + length test = length X)
       \<and> map (\<lambda>(train, test). length test) folds = fold_sizes (length X) (nat k)
       \<and> (length X = 100 \<and> k = 5 \<longrightarrow>
            (\<forall>(train, test)\<in>set folds. length test = 20 \<and> length train = 80))"
proof -
  note facts = KFold_split_tests [OF perm init split]
  have len: "length folds = nat k"
    using KFold_split_length [OF split] facts(3) by simp
  have cover: "mset (concat (map snd folds)) = mset [0..<length X]"
    by (rule facts(1))
  have dist: "distinct (concat (map snd folds))"
    using cover by (metis distinct_upt mset_eq_imp_distinct_iff)
  have disj: "set (snd (folds ! i)) \<inter> set (snd (folds ! j)) = {}"
    if "i < length folds" "j < length folds" "i \<noteq> j" for i j
  proof (cases "i < j")
    case True
    with distinct_concat_nth_disjoint [OF dist, of i j] that show ?thesis by simp
  next
    case False
    with that have "j < i" by simp
    with distinct_concat_nth_disjoint [OF dist, of j i] that show ?thesis by auto
  qed
  have "set (concat (map snd folds)) = {0..<length X}"
    using cover by (metis mset_eq_setD set_upt)
  then have union: "(\<Union>idx\<in>set folds. set (snd idx)) = {0..<length X}"
    by simp
  have each: "set train = {0..<length X} - set test \<and> length train + length test = length X"
    if "(train, test) \<in> set folds" for train test
    using KFold_split_fold(1,3) [OF split that] by simp
  have lens: "map (\<lambda>(train, test). length test) folds = fold_sizes (length X) (nat k)"
    using facts(2) by (simp add: case_prod_unfold)
  have scenario: "length test = 20 \<and> length train = 80"
    if "length X = 100" "k = 5" "(train, test) \<in> set folds" for train test
  proof -
    have "length test \<in> set (map (\<lambda>(train, test). length test) folds)"
      using that(3) by force
    then have "length test \<in> set (fold_sizes 100 5)"
      unfolding lens using that(1,2) by simp
    then have "length test = 20"
      by (auto simp: fold_sizes_def)
    with each [OF that(3)] that(1) show ?thesis by simp
  qed
  show ?thesis
    using len cover disj union each lens scenario by blast
qed

theorem kfold_test_sets_partition_witness:
  "KFold_split rotating kf [0..<10::nat] 0
     = (Inr [([0, 1, 4, 5, 6, 7, 8, 9], [2, 3]), ([0, 1, 2, 3, 6, 7, 8, 9], [4, 5]),
             ([0, 1, 2, 3, 4, 5, 8, 9], [6, 7]), ([0, 1, 2, 3, 4, 5, 6, 7], [8, 9]),
             ([2, 3, 4, 5, 6, 7, 8, 9], [0, 1])], 0)
   \<and> mset (concat (map snd
          [([0, 1, 4, 5, 6, 7, 8, 9], [2, 3]), ([0, 1, 2, 3, 6, 7, 8, 9], [4, 5]),
           ([0, 1, 2, 3, 4, 5, 8, 9], [6, 7]), ([0, 1, 2, 3, 4, 5, 6, 7], [8, 9]),
           ([2, 3, 4, 5, 6, 7, 8, 9::nat], [0, 1::nat])]))
       = mset [0..<length [0..<10::nat]]"
proof -
  have run: "KFold_split rotating kf [0..<10::nat] 0
     = (Inr [([0, 1, 4, 5, 6, 7, 8, 9], [2, 3]), ([0, 1, 2, 3, 6, 7, 8, 9], [4, 5]),
             ([0, 1, 2, 3, 4, 5, 8, 9], [6, 7]), ([0, 1, 2, 3, 4, 5, 6, 7], [8, 9]),
             ([2, 3, 4, 5, 6, 7, 8, 9], [0, 1])], 0)"
    by code_simp
  note t = kfold_test_sets_partition [OF rotating_permuting kf_init run]
  from run conjunct1 [OF conjunct2 [OF t]] show ?thesis by (rule conjI)
qed

text \<open>
  C6. A \<^verbatim>\<open>KFold\<close> given an integer seed draws from a generator freshly made from that seed
  at every call of \<^verbatim>\<open>split\<close>: whatever the state of the process-wide generator at the two
  calls, the same dataset, seed and fold count give the same result (the same sequence of
  train and test index arrays, or the same exception), and the call leaves the process-wide
  generator as it found it; so does a second call right after the first one.
\<close>

theorem kfold_seeded_deterministic:
  "fst (KFold_split np \<lparr>n_splits = k, shuffle = sh, random_state = Some s\<rparr> X g)
     = fst (KFold_split np \<lparr>n_splits = k, shuffle = sh, random_state = Some s\<rparr> X g')
   \<and> snd (KFold_split np \<lparr>n_splits = k, shuffle = sh, random_state = Some s\<rparr> X g) = g
   \<and> fst (KFold_split np \<lparr>n_splits = k, shuffle = sh, random_state = Some s\<rparr> X
            (snd (KFold_split np \<lparr>n_splits = k, shuffle = sh, random_state = Some s\<rparr> X g)))
     = fst (KFold_split np \<lparr>n_splits = k, shuffle = sh, random_state = Some s\<rparr> X g)"
  by (simp add: KFold_split_def iter_test_indices_def with_random_state_def Let_def
      split: prod.splits)

section \<open>Properties of the metric evaluator\<close>

lemma map2_same: "map2 f ys ys = map (\<lambda>t. f t t) ys"
  by (simp add: zip_same_conv_map)

lemma two_values_length:
  assumes "a \<in> set ys" and "b \<in> set ys" and "a \<noteq> b"
  shows "2 \<le> length ys"
proof (cases ys)
  case Nil
  with assms show ?thesis by simp
next
  case (Cons x xs)
  with assms have "xs \<noteq> []" by auto
  with Cons show ?thesis by (cases xs) simp_all
qed

text \<open>
  C8. For a vector \<open>ys\<close> that is not constant (two of its entries differ), the three metrics
  of \<open>ys\<close> against itself are rmse = 0, r2 = 1 and mae = 0, where rmse is the square root of
  the mean squared error, mae the mean absolute error and r2 is \<open>1 - SS_res / SS_tot\<close>
  (lemma \<open>evaluate_formulas\<close> below).
\<close>

theorem evaluate_identical:
  assumes "a \<in> set ys" and "b \<in> set ys" and "a \<noteq> b"
  shows "evaluate ys ys = Inr \<lparr>rmse = 0, r2 = Float 1, mae = 0\<rparr>"
proof -
  from two_values_length [OF assms] have len: "2 \<le> length ys" .
  then have ne: "ys \<noteq> []" by auto
  have chk: "check_targets ys ys = Inr ()"
    using ne by (simp add: check_targets_def)
  have mse: "mean_squared_error ys ys = Inr 0"
    by (simp add: mean_squared_error_def chk bind_error_def map2_same mean_def)
  have mae: "mean_absolute_error ys ys = Inr 0"
    by (simp add: mean_absolute_error_def chk bind_error_def map2_same mean_def)
  have r2: "r2_score ys ys = Inr (Float 1)"
    using len by (simp add: r2_score_def chk bind_error_def map2_same Let_def)
  show ?thesis
    by (simp add: evaluate_def mse mae r2 bind_error_def)
qed

theorem evaluate_identical_witness:
  "(1::real) \<in> set [1, 2] \<and> (2::real) \<in> set [1, 2] \<and> (1::real) \<noteq> 2
   \<and> evaluate [1, 2] [1, 2] = Inr \<lparr>rmse = 0, r2 = Float 1, mae = 0\<rparr>"
  using evaluate_identical [of 1 "[1, 2]" 2] by simp

lemma evaluate_formulas:
  assumes "length y_pred = length y_true" and "2 \<le> length y_true"
      and "sum_list (map (\<lambda>t. (t - mean y_true)\<^sup>2) y_true) \<noteq> 0"
  shows "evaluate y_true y_pred =
           Inr \<lparr>rmse = sqrt (mean (map2 (\<lambda>t p. (t - p)\<^sup>2) y_true y_pred)),
                r2 = Float (1 - sum_list (map2 (\<lambda>t p. (t - p)\<^sup>2) y_true y_pred)
                                / sum_list (map (\<lambda>t. (t - mean y_true)\<^sup>2) y_true)),
                mae = mean (map2 (\<lambda>t p. \<bar>p - t\<bar>) y_true y_pred)\<rparr>"
proof -
  from assms(2) have ne: "y_true \<noteq> []" by auto
  have chk: "check_targets y_true y_pred = Inr ()"
    using ne assms(1) by (simp add: check_targets_def)
  show ?thesis
    using assms(2,3)
    by (simp add: evaluate_def mean_squared_error_def mean_absolute_error_def r2_score_def
        chk bind_error_def Let_def)
qed

section \<open>Properties of the evaluation loop\<close>

lemma bind_error_Inr:
  "bind_error r f = Inr v \<longleftrightarrow> (\<exists>u. r = Inr u \<and> f u = Inr v)"
  by (cases r) (simp_all add: bind_error_def)

lemma bind_error_simps:
  "bind_error (Inl e) f = Inl e"
  "bind_error (Inr u) f = f u"
  by (simp_all add: bind_error_def)

lemma evaluate_fold_Inr:
  assumes "evaluate_fold be X y (train_index, test_index) (m, ms) = Inr (m', ms')"
  shows "\<exists>X_train_kf y_train_kf tr te.
           take_rows X train_index = Inr X_train_kf \<and> take_rows y train_index = Inr y_train_kf
           \<and> fit be m X_train_kf y_train_kf = Inr m' \<and> ms' = append_metrics tr te ms"
  using assms unfolding evaluate_fold_def prod.case bind_error_Inr by blast

lemma column_lengths_append:
  "column_lengths (append_metrics tr te ms) = map Suc (column_lengths ms)"
  by (simp add: column_lengths_def append_metrics_def)

lemma fold_loop_lengths:
  "fold_loop be X y folds (m, ms) = Inr (m', ms')
     \<Longrightarrow> column_lengths ms' = map (\<lambda>l. l + length folds) (column_lengths ms)"
proof (induction folds arbitrary: m ms)
  case Nil
  then show ?case by simp
next
  case (Cons idx folds)
  from Cons.prems obtain m1 ms1 where
    step: "evaluate_fold be X y idx (m, ms) = Inr (m1, ms1)"
    and rest: "fold_loop be X y folds (m1, ms1) = Inr (m', ms')"
    by (auto simp: bind_error_Inr)
  obtain train_index test_index where idx: "idx = (train_index, test_index)"
    by (cases idx)
  from evaluate_fold_Inr [OF step [unfolded idx]]
  have "column_lengths ms1 = map Suc (column_lengths ms)"
    by (auto simp: column_lengths_append)
  with Cons.IH [OF rest] show ?case by (simp add: comp_def)
qed

lemma evaluation_loop_lengths:
  "evaluation_loop np be kf' X y R (glob, m, ms) = Inr (glob', m', ms')
     \<Longrightarrow> column_lengths ms' = map (\<lambda>l. l + R * nat (n_splits kf')) (column_lengths ms)"
proof (induction R arbitrary: glob m ms)
  case 0
  then show ?case by simp
next
  case (Suc R)
  from Suc.prems obtain folds glob1 m1 ms1 where
    split: "KFold_split np kf' X glob = (Inr folds, glob1)"
    and pass: "fold_loop be X y folds (m, ms) = Inr (m1, ms1)"
    and rest: "evaluation_loop np be kf' X y R (glob1, m1, ms1) = Inr (glob', m', ms')"
    by (auto simp: bind_error_Inr split: prod.splits sum.splits)
  from fold_loop_lengths [OF pass] KFold_split_length [OF split]
  have "column_lengths ms1 = map (\<lambda>l. l + nat (n_splits kf')) (column_lengths ms)" by simp
  with Suc.IH [OF rest] show ?case by (simp add: comp_def add.assoc add.commute)
qed

lemma DataFrame_of_equal_columns:
  assumes "column_lengths ms = replicate 6 n"
  shows "\<exists>df. DataFrame ms = Inr df
           \<and> columns df = [''train_rmse'', ''test_rmse'', ''train_r2'', ''test_r2'',
                           ''train_mae'', ''test_mae'']
           \<and> length (rows df) = n \<and> list_all (\<lambda>row. length row = 6) (rows df)"
proof -
  from assms have l: "length (train_rmse ms) = n" "length (test_rmse ms) = n"
    "length (train_r2 ms) = n" "length (test_r2 ms) = n"
    "length (train_mae ms) = n" "length (test_mae ms) = n"
    by (simp_all add: column_lengths_def numeral_eq_Suc)
  show ?thesis
    by (auto simp: DataFrame_def l rows_def list_all_iff)
qed

lemma fold_size_bounds:
  assumes "2 \<le> k" and "k \<le> n" and "s \<in> set (fold_sizes n k)"
  shows "1 \<le> s \<and> s < n"
proof -
  define q where "q = n div k"
  have q1: "1 \<le> q"
    using assms(1,2) by (simp add: q_def Suc_le_eq div_greater_zero_iff)
  have n: "n = k * q + n mod k"
    by (simp add: q_def)
  have "2 * q \<le> k * q"
    using assms(1) by (rule mult_le_mono1)
  with n have n2: "2 * q + n mod k \<le> n" by linarith
  from assms(3) obtain i where s: "s = q + (if i < n mod k then 1 else 0)"
    by (auto simp: fold_sizes_def q_def)
  show ?thesis
  proof (cases "i < n mod k")
    case True
    then have "0 < n mod k" by simp
    with s True q1 n2 show ?thesis by simp
  next
    case False
    with s q1 n2 show ?thesis by simp
  qed
qed

lemma take_rows_in_range:
  assumes "set index \<subseteq> {0..<length X}"
  shows "take_rows X index = Inr (map (\<lambda>i. X ! i) index)"
  using assms by (auto simp: take_rows_def list_all_iff)

lemma take_rows_length: "take_rows X index = Inr rs \<Longrightarrow> length rs = length index"
  by (auto simp: take_rows_def split: if_splits)

lemma evaluate_total:
  assumes "length y_pred = length y_true" and "y_true \<noteq> []"
  shows "\<exists>r. evaluate y_true y_pred = Inr r"
  using assms
  by (simp add: evaluate_def mean_squared_error_def mean_absolute_error_def r2_score_def
      check_targets_def bind_error_def Let_def)

lemma evaluate_fold_total:
  assumes be: "never_fails be" and len: "length y = length X"
      and tr: "set train_index \<subseteq> {0..<length X}" "train_index \<noteq> []"
      and te: "set test_index \<subseteq> {0..<length X}" "test_index \<noteq> []"
  shows "\<exists>st'. evaluate_fold be X y (train_index, test_index) (m, ms) = Inr st'"
proof -
  define X_tr where "X_tr = map (\<lambda>i. X ! i) train_index"
  define X_te where "X_te = map (\<lambda>i. X ! i) test_index"
  define y_tr where "y_tr = map (\<lambda>i. y ! i) train_index"
  define y_te where "y_te = map (\<lambda>i. y ! i) test_index"
  have r: "take_rows X train_index = Inr X_tr" "take_rows X test_index = Inr X_te"
    "take_rows y train_index = Inr y_tr" "take_rows y test_index = Inr y_te"
    using tr(1) te(1) len by (simp_all add: take_rows_in_range X_tr_def X_te_def y_tr_def y_te_def)
  from be obtain m' where f: "fit be m X_tr y_tr = Inr m'"
    unfolding never_fails_def by blast
  from be obtain p_tr where p1: "predict be m' X_tr = Inr p_tr" "length p_tr = length X_tr"
    unfolding never_fails_def by blast
  from be obtain p_te where p2: "predict be m' X_te = Inr p_te" "length p_te = length X_te"
    unfolding never_fails_def by blast
  have "length p_tr = length y_tr" "y_tr \<noteq> []"
    using p1(2) tr(2) by (simp_all add: X_tr_def y_tr_def)
  from evaluate_total [OF this] obtain a where a: "evaluate y_tr p_tr = Inr a" ..
  have "length p_te = length y_te" "y_te \<noteq> []"
    using p2(2) te(2) by (simp_all add: X_te_def y_te_def)
  from evaluate_total [OF this] obtain b where b: "evaluate y_te p_te = Inr b" ..
  show ?thesis
    by (simp add: evaluate_fold_def r f p1(1) p2(1) a b bind_error_simps)
qed

lemma fold_loop_total:
  assumes be: "never_fails be" and len: "length y = length X"
      and good: "\<forall>idx\<in>set folds. set (fst idx) \<subseteq> {0..<length X} \<and> fst idx \<noteq> []
                   \<and> set (snd idx) \<subseteq> {0..<length X} \<and> snd idx \<noteq> []"
  shows "\<exists>st'. fold_loop be X y folds st = Inr st'"
  using good
proof (induction folds arbitrary: st)
  case Nil
  show ?case by simp
next
  case (Cons idx folds)
  obtain train_index test_index where idx: "idx = (train_index, test_index)" by (cases idx)
  obtain m ms where st: "st = (m, ms)" by (cases st)
  from Cons.prems idx
  have g: "set train_index \<subseteq> {0..<length X}" "train_index \<noteq> []"
    "set test_index \<subseteq> {0..<length X}" "test_index \<noteq> []" by simp_all
  from evaluate_fold_total [OF be len g]
  obtain st1 where s1: "evaluate_fold be X y idx st = Inr st1"
    unfolding idx st by blast
  from Cons.prems have "\<forall>idx\<in>set folds. set (fst idx) \<subseteq> {0..<length X} \<and> fst idx \<noteq> []
                   \<and> set (snd idx) \<subseteq> {0..<length X} \<and> snd idx \<noteq> []" by simp
  from Cons.IH [OF this, of st1] obtain st2 where "fold_loop be X y folds st1 = Inr st2" ..
  with s1 show ?case by (simp add: bind_error_simps)
qed

lemma KFold_split_good_folds:
  assumes perm: "permuting np"
      and init: "KFold_init k sh rs = Inr kf'"
      and split: "KFold_split np kf' X glob = (Inr folds, glob')"
  shows "\<forall>idx\<in>set folds. set (fst idx) \<subseteq> {0..<length X} \<and> fst idx \<noteq> []
                   \<and> set (snd idx) \<subseteq> {0..<length X} \<and> snd idx \<noteq> []"
proof
  fix idx assume mem: "idx \<in> set folds"
  obtain train test where idx: "idx = (train, test)" by (cases idx)
  note facts = KFold_split_tests [OF perm init split]
  note fold = KFold_split_fold [OF split mem [unfolded idx]]
  have "length test \<in> set (map (\<lambda>idx. length (snd idx)) folds)"
    using mem idx by force
  then have "length test \<in> set (fold_sizes (length X) (nat k))"
    unfolding facts(2) .
  from fold_size_bounds [OF _ _ this] facts(4,5)
  have b: "1 \<le> length test" "length test < length X" by simp_all
  with fold(3) have "1 \<le> length train" by simp
  with b fold(1,2) show "set (fst idx) \<subseteq> {0..<length X} \<and> fst idx \<noteq> []
                   \<and> set (snd idx) \<subseteq> {0..<length X} \<and> snd idx \<noteq> []"
    unfolding idx by auto
qed

lemma KFold_split_enough:
  assumes "n_splits kf' \<le> int (length X)"
  shows "\<exists>folds glob1. KFold_split np kf' X glob = (Inr folds, glob1)"
  using assms by (cases "iter_test_indices np kf' (length X) glob") (simp add: KFold_split_def)

text \<open>
  With a regressor that never raises, a shuffle that rearranges, a partitioner its constructor
  accepts, targets aligned with the rows and at least as many rows as folds, the evaluation
  loop runs to its end.
\<close>

lemma evaluation_loop_succeeds:
  assumes perm: "permuting np"
      and init: "KFold_init k sh rs = Inr kf'"
      and enough: "k \<le> int (length X)"
      and len: "length y = length X"
      and be: "never_fails be"
  shows "\<exists>st'. evaluation_loop np be kf' X y R st = Inr st'"
proof (induction R arbitrary: st)
  case 0
  show ?case by (simp del: split_paired_Ex)
next
  case (Suc R)
  obtain glob m ms where st: "st = (glob, m, ms)" by (cases st)
  from init have "n_splits kf' = k" by (auto simp: KFold_init_def split: if_splits)
  with enough KFold_split_enough [of kf' X np glob]
  obtain folds glob1 where split: "KFold_split np kf' X glob = (Inr folds, glob1)"
    by auto
  from fold_loop_total [OF be len KFold_split_good_folds [OF perm init split]]
  obtain st1 where pass: "fold_loop be X y folds (m, ms) = Inr st1" by blast
  obtain m1 ms1 where st1: "st1 = (m1, ms1)" by (cases st1)
  from Suc.IH [of "(glob1, m1, ms1)"]
  obtain st2 where "evaluation_loop np be kf' X y R (glob1, m1, ms1) = Inr st2" ..
  then show ?case
    by (simp add: st split pass st1 bind_error_simps del: split_paired_Ex)
qed

text \<open>
  C2. A run of the evaluation loop with \<open>R\<close> passes and \<open>K\<close> folds that ends without an
  exception (no fold failed, and the dataset has at least \<open>K\<close> samples, or the partitioner
  would have raised) leaves \<open>R * K\<close> entries in each of the six lists, one train and one test
  record per repetition and fold; the table made of them has the six columns
  \<^verbatim>\<open>train_rmse, test_rmse, train_r2, test_r2, train_mae, test_mae\<close> and \<open>R * K\<close> rows of six
  values. Lemma \<open>evaluation_loop_succeeds\<close> above gives conditions under which the run ends
  so.
\<close>

theorem repeated_cv_record_count:
  assumes "evaluation_loop np be kf' X_scaled y R (glob, model, metrics_init)
             = Inr (glob', model', ms)"
  shows "column_lengths ms = replicate 6 (R * nat (n_splits kf'))
       \<and> (\<exists>df. DataFrame ms = Inr df
              \<and> columns df = [''train_rmse'', ''test_rmse'', ''train_r2'', ''test_r2'',
                              ''train_mae'', ''test_mae'']
              \<and> length (rows df) = R * nat (n_splits kf')
              \<and> list_all (\<lambda>row. length row = 6) (rows df))"
proof -
  from evaluation_loop_lengths [OF assms]
  have l: "column_lengths ms = replicate 6 (R * nat (n_splits kf'))"
    by (simp add: column_lengths_def metrics_init_def numeral_eq_Suc)
  from DataFrame_of_equal_columns [OF l] l show ?thesis by blast
qed

lemma mean_regressor_never_fails: "never_fails mean_regressor"
  by (simp add: never_fails_def mean_regressor_def)

theorem repeated_cv_record_count_witness:
  "\<exists>glob' model' ms df.
      evaluation_loop rotating mean_regressor kf [[0], [1], [2], [3], [4], [5], [6]]
          [1, 2, 3, 4, 5, 6, 7] 3 (0, 0, metrics_init) = Inr (glob', model', ms)
    \<and> column_lengths ms = replicate 6 (3 * nat (n_splits kf))
    \<and> DataFrame ms = Inr df
    \<and> columns df = [''train_rmse'', ''test_rmse'', ''train_r2'', ''test_r2'',
                    ''train_mae'', ''test_mae'']
    \<and> length (rows df) = 15"
proof -
  have "int (length [[0], [1], [2], [3], [4], [5], [6::real]]) \<ge> 5"
    and "length [1, 2, 3, 4, 5, 6, 7::real] = length [[0], [1], [2], [3], [4], [5], [6::real]]"
    by simp_all
  from evaluation_loop_succeeds [OF rotating_permuting kf_init this mean_regressor_never_fails,
      of 3 "(0, 0, metrics_init)"]
  obtain glob' model' ms where
    run: "evaluation_loop rotating mean_regressor kf [[0], [1], [2], [3], [4], [5], [6]]
            [1, 2, 3, 4, 5, 6, 7] 3 (0, 0, metrics_init) = Inr (glob', model', ms)"
    by (metis prod_cases3)
  from repeated_cv_record_count [OF run] run show ?thesis
    by (auto simp: kf_def)
qed

section \<open>Exceptions in the evaluation loop\<close>

lemma evaluation_loop_add:
  "evaluation_loop np be kf' X y (a + b) st
     = bind_error (evaluation_loop np be kf' X y a st) (evaluation_loop np be kf' X y b)"
proof (induction a arbitrary: st)
  case 0
  show ?case by (simp add: bind_error_simps)
next
  case (Suc a)
  obtain glob m ms where st: "st = (glob, m, ms)" by (cases st)
  show ?case
    by (simp add: st Suc.IH bind_error_def split: prod.splits sum.splits)
qed

lemma fold_loop_append:
  "fold_loop be X y (pre @ post) st
     = bind_error (fold_loop be X y pre st) (fold_loop be X y post)"
proof (induction pre arbitrary: st)
  case Nil
  show ?case by (simp add: bind_error_simps)
next
  case (Cons idx pre)
  show ?case
    by (simp add: Cons.IH bind_error_def split: sum.splits)
qed

text \<open>
  C4, as the code has it. An exception raised in one fold ends the run: when the first
  \<open>r\<close> passes went through, pass \<open>r\<close> got its folds, the folds before \<open>idx\<close> went through
  and the body raises \<open>e\<close> on \<open>idx\<close> (its \<^verbatim>\<open>fit\<close>, a \<^verbatim>\<open>predict\<close> or a metric), then the
  loop with any number of passes beyond \<open>r\<close> ends with \<open>e\<close>, whatever folds and passes
  remained: they are not executed and no metrics are returned.
\<close>

theorem fold_failure_ends_run:
  assumes before: "evaluation_loop np be kf' X y r st0 = Inr (glob, model, ms)"
      and split: "KFold_split np kf' X glob = (Inr (pre @ idx # rest), glob')"
      and pre: "fold_loop be X y pre (model, ms) = Inr st"
      and fail: "evaluate_fold be X y idx st = Inl e"
  shows "evaluation_loop np be kf' X y (r + Suc i) st0 = Inl e"
proof -
  have "fold_loop be X y (pre @ idx # rest) (model, ms) = Inl e"
    by (simp add: fold_loop_append pre fail bind_error_simps)
  then have "evaluation_loop np be kf' X y (Suc i) (glob, model, ms) = Inl e"
    by (simp add: split bind_error_simps)
  then show ?thesis
    by (simp only: evaluation_loop_add before bind_error_simps)
qed

lemma loop5_split: "KFold_split rotating kf [[0], [1], [2], [3], [4::real]] 0
     = (Inr [([0, 1, 3, 4], [2]), ([0, 1, 2, 4], [3]), ([0, 1, 2, 3], [4]),
             ([1, 2, 3, 4], [0]), ([0, 2, 3, 4], [1])], 0)"
  by code_simp

theorem fold_failure_counterexample:
  "evaluation_loop rotating picky_regressor kf [[0], [1], [2], [3], [4]] [1, 2, 3, 4, 7] 2
     (0, 0, metrics_init) = Inl BackendError"
  by (simp add: eval_nat_numeral loop5_split evaluate_fold_def picky_regressor_def take_rows_def
      bind_error_simps evaluate_def mean_squared_error_def mean_absolute_error_def r2_score_def
      check_targets_def mean_def Let_def)

theorem fold_failure_ends_run_witness:
  "KFold_split rotating kf [[0], [1], [2], [3], [4::real]] 0
     = (Inr ([([0, 1, 3, 4], [2]), ([0, 1, 2, 4], [3])] @ ([0, 1, 2, 3], [4])
             # [([1, 2, 3, 4], [0]), ([0, 2, 3, 4], [1])]), 0)
   \<and> evaluate_fold picky_regressor [[0], [1], [2], [3], [4]] [1, 2, 3, 4, 7] ([1, 2, 3, 4], [0])
        (0, metrics_init) \<noteq> Inl BackendError
   \<and> evaluation_loop rotating picky_regressor kf [[0], [1], [2], [3], [4]] [1, 2, 3, 4, 7]
        (0 + Suc 999) (0, 0, metrics_init) = Inl BackendError"
proof -
  let ?X = "[[0], [1], [2], [3], [4::real]]" and ?y = "[1, 2, 3, 4, 7::real]"
  have before: "evaluation_loop rotating picky_regressor kf ?X ?y 0 (0, 0, metrics_init)
                  = Inr (0, 0, metrics_init)"
    by simp
  have split: "KFold_split rotating kf ?X 0
     = (Inr ([([0, 1, 3, 4], [2]), ([0, 1, 2, 4], [3])] @ ([0, 1, 2, 3], [4])
             # [([1, 2, 3, 4], [0]), ([0, 2, 3, 4], [1])]), 0)"
    by (simp add: loop5_split)
  obtain st where pre: "fold_loop picky_regressor ?X ?y [([0, 1, 3, 4], [2]), ([0, 1, 2, 4], [3])]
                          (0, metrics_init) = Inr st"
    by (simp add: evaluate_fold_def picky_regressor_def take_rows_def
      bind_error_simps evaluate_def mean_squared_error_def mean_absolute_error_def r2_score_def
      check_targets_def mean_def Let_def)
  have fail: "evaluate_fold picky_regressor ?X ?y ([0, 1, 2, 3], [4]) st = Inl BackendError"
    by (cases st) (simp add: evaluate_fold_def picky_regressor_def take_rows_def bind_error_simps)
  have other: "evaluate_fold picky_regressor ?X ?y ([1, 2, 3, 4], [0]) (0, metrics_init)
                 \<noteq> Inl BackendError"
    by (simp add: evaluate_fold_def picky_regressor_def take_rows_def
      bind_error_simps evaluate_def mean_squared_error_def mean_absolute_error_def r2_score_def
      check_targets_def mean_def Let_def)
  from fold_failure_ends_run [OF before split pre fail, of 999] split other
  show ?thesis by blast
qed

section \<open>What the loop draws and what it leaves in the model object\<close>

lemma evaluation_loop_glob:
  "evaluation_loop np be kf' X y R (glob, m, ms) = Inr (glob', m', ms')
     \<Longrightarrow> glob' = glob_at np kf' X glob R"
proof (induction R arbitrary: glob m ms)
  case 0
  then show ?case by simp
next
  case (Suc R)
  from Suc.prems obtain folds glob1 m1 ms1 where
    split: "KFold_split np kf' X glob = (Inr folds, glob1)"
    and rest: "evaluation_loop np be kf' X y R (glob1, m1, ms1) = Inr (glob', m', ms')"
    by (auto simp: bind_error_Inr split: prod.splits sum.splits)
  from Suc.IH [OF rest] split show ?case by simp
qed

text \<open>
  The last pass of a run that went through: it starts from the state the passes before it left,
  splits with the generator state \<open>glob_at \<dots> R\<close>, and its inner loop gives the final model
  and metrics.
\<close>

lemma evaluation_loop_last_pass:
  assumes "evaluation_loop np be kf' X y (Suc R) (glob, m, ms) = Inr (glob', m', ms')"
  shows "\<exists>m1 ms1 folds.
           evaluation_loop np be kf' X y R (glob, m, ms) = Inr (glob_at np kf' X glob R, m1, ms1)
           \<and> repetition_split np kf' X glob R = Inr folds
           \<and> fold_loop be X y folds (m1, ms1) = Inr (m', ms')"
proof -
  have "Suc R = R + Suc 0" by simp
  with assms have "bind_error (evaluation_loop np be kf' X y R (glob, m, ms))
                     (evaluation_loop np be kf' X y (Suc 0)) = Inr (glob', m', ms')"
    by (metis evaluation_loop_add)
  then obtain st1 where a: "evaluation_loop np be kf' X y R (glob, m, ms) = Inr st1"
    and b: "evaluation_loop np be kf' X y (Suc 0) st1 = Inr (glob', m', ms')"
    unfolding bind_error_Inr by blast
  obtain g1 m1 ms1 where st1: "st1 = (g1, m1, ms1)" by (cases st1)
  from evaluation_loop_glob [OF a [unfolded st1]] have g1: "g1 = glob_at np kf' X glob R" .
  from b obtain folds g2 where split: "KFold_split np kf' X g1 = (Inr folds, g2)"
    and pass: "fold_loop be X y folds (m1, ms1) = Inr (m', ms')"
    unfolding st1 by (auto simp: bind_error_Inr split: prod.splits sum.splits)
  from split have "repetition_split np kf' X glob R = Inr folds"
    by (simp add: repetition_split_def g1)
  with a pass show ?thesis unfolding st1 g1 by blast
qed

lemma fold_loop_last:
  assumes "folds \<noteq> []" and "fold_loop be X y folds (m, ms) = Inr (m', ms')"
  shows "\<exists>m_prev ms_prev. evaluate_fold be X y (last folds) (m_prev, ms_prev) = Inr (m', ms')"
  using assms
proof (induction folds arbitrary: m ms)
  case Nil
  then show ?case by simp
next
  case (Cons idx folds)
  from Cons.prems(2) obtain m1 ms1 where
    step: "evaluate_fold be X y idx (m, ms) = Inr (m1, ms1)"
    and rest: "fold_loop be X y folds (m1, ms1) = Inr (m', ms')"
    by (auto simp: bind_error_Inr)
  show ?case
  proof (cases "folds = []")
    case True
    with step rest show ?thesis by auto
  next
    case False
    from Cons.IH [OF False rest] False show ?thesis by simp
  qed
qed

lemma glob_at_seeded:
  "random_state kf' = Some s \<Longrightarrow> glob_at np kf' X glob r = glob"
proof (induction r arbitrary: glob)
  case 0
  show ?case by simp
next
  case (Suc r)
  have "snd (KFold_split np kf' X glob) = glob"
    using Suc.prems
    by (simp add: KFold_split_def iter_test_indices_def with_random_state_def Let_def
        split: prod.splits)
  with Suc show ?case by simp
qed

lemma KFold_split_seeded:
  "random_state kf' = Some s \<Longrightarrow> fst (KFold_split np kf' X glob) = fst (KFold_split np kf' X glob0)"
  by (simp add: KFold_split_def iter_test_indices_def with_random_state_def Let_def
      split: prod.splits)

text \<open>
  C1 on the code. The partitioner \<open>kf\<close> is built once, before the loop, with the integer seed
  1, and the loop variable is not used: the partition drawn at every repetition \<open>r\<close> is the
  partition drawn at repetition 0, whatever the process-wide generator holds. No two
  repetitions differ.
\<close>

theorem every_repetition_same_partition:
  "repetition_split np kf X_scaled glob r = repetition_split np kf X_scaled glob0 0"
proof -
  have seeded: "random_state kf = Some 1" by (simp add: kf_def)
  have "repetition_split np kf X_scaled glob r = fst (KFold_split np kf X_scaled glob)"
    by (simp add: repetition_split_def glob_at_seeded [OF seeded])
  also have "\<dots> = fst (KFold_split np kf X_scaled glob0)"
    using seeded by (rule KFold_split_seeded)
  finally show ?thesis by (simp add: repetition_split_def)
qed

section \<open>The stages of a script\<close>

lemma preprocess_Inr:
  assumes "preprocess np X y glob = (Inr (X_scaled, X_train, X_test, y_train, y_test), glob1)"
  shows "\<exists>sc train test.
           StandardScaler_fit X = Inr sc \<and> X_scaled = map (transform_row sc) X
           \<and> shuffle_split_indices np (length X) 0.2 (Some 1) glob = (Inr (train, test), glob1)
           \<and> take_rows X_scaled train = Inr X_train \<and> take_rows X_scaled test = Inr X_test
           \<and> take_rows y train = Inr y_train \<and> take_rows y test = Inr y_test
           \<and> length y = length X"
proof -
  from assms obtain X_s where ft: "fit_transform X = Inr X_s"
    and tts: "train_test_split np X_s y 0.2 (Some 1) glob
                = (Inr (X_train, X_test, y_train, y_test), glob1)"
    and xs: "X_s = X_scaled"
    by (auto simp: preprocess_def split: sum.splits prod.splits)
  from ft obtain sc where sc: "StandardScaler_fit X = Inr sc"
    and tr: "X_s = map (transform_row sc) X"
    by (auto simp: fit_transform_def bind_error_Inr StandardScaler_transform_def split: if_splits)
  then have len: "length X_s = length X" by simp
  from tts obtain train test where
    idx: "shuffle_split_indices np (length X_s) 0.2 (Some 1) glob = (Inr (train, test), glob1)"
    and rows: "take_rows X_s train = Inr X_train" "take_rows X_s test = Inr X_test"
      "take_rows y train = Inr y_train" "take_rows y test = Inr y_test"
    and ly: "length y = length X_s"
    by (auto simp: train_test_split_def bind_error_Inr split: if_splits sum.splits prod.splits)
  from sc tr idx rows ly len xs show ?thesis by auto
qed

lemma run_script_Inr:
  assumes "run_script np search new_regressor be opt R X y = Inr out"
  shows "\<exists>X_scaled X_train X_test y_train y_test glob1 glob2 single glob3 ms.
           preprocess np X y (RandomState np 1)
             = (Inr (X_scaled, X_train, X_test, y_train, y_test), glob1)
           \<and> BayesSearchCV_fit np search opt X_train y_train glob1 = (Inr (best_params out), glob2)
           \<and> fit be (new_regressor (best_params out)) X_train y_train = Inr single
           \<and> evaluation_loop np be kf X_scaled y R (glob2, single, metrics_init)
               = Inr (glob3, final_model out, ms)
           \<and> DataFrame ms = Inr (results_df out)"
proof -
  from assms obtain X_scaled X_train X_test y_train y_test glob1 where
    pre: "preprocess np X y (RandomState np 1)
            = (Inr (X_scaled, X_train, X_test, y_train, y_test), glob1)"
    by (auto simp: run_script_def split: prod.splits sum.splits)
  from assms pre obtain best glob2 where
    bs: "BayesSearchCV_fit np search opt X_train y_train glob1 = (Inr best, glob2)"
    by (auto simp: run_script_def split: prod.splits sum.splits)
  from assms have
    "bind_error (fit be (new_regressor best) X_train y_train) (\<lambda>model.
     bind_error (predict be model X_train) (\<lambda>y_pred_train.
     bind_error (predict be model X_test) (\<lambda>y_pred_test.
     bind_error (evaluate y_train y_pred_train) (\<lambda>tr.
     bind_error (evaluate y_test y_pred_test) (\<lambda>te.
     bind_error (KFold_init 5 True (Some 1)) (\<lambda>kf'.
     bind_error (evaluation_loop np be kf' X_scaled y R (glob2, model, metrics_init))
       (\<lambda>(glob3, model', ms).
     bind_error (DataFrame ms) (\<lambda>df.
     Inr \<lparr>best_params = best, holdout_train = tr, holdout_test = te,
          results_df = df, final_model = model'\<rparr>)))))))) = Inr out"
    by (simp only: run_script_def pre bs prod.case sum.case)
  then obtain single tr te st where
    f: "fit be (new_regressor best) X_train y_train = Inr single"
    and loop: "evaluation_loop np be kf X_scaled y R (glob2, single, metrics_init) = Inr st"
    and out: "(case st of (glob3, model', ms) \<Rightarrow>
                bind_error (DataFrame ms) (\<lambda>df.
                  Inr \<lparr>best_params = best, holdout_train = tr, holdout_test = te,
                       results_df = df, final_model = model'\<rparr>)) = Inr out"
    unfolding bind_error_Inr kf_init by (auto simp: bind_error_simps)
  obtain glob3 model' ms where st: "st = (glob3, model', ms)" by (cases st)
  from out obtain df where df: "DataFrame ms = Inr df"
    and o: "out = \<lparr>best_params = best, holdout_train = tr, holdout_test = te,
                    results_df = df, final_model = model'\<rparr>"
    unfolding st by (auto simp: bind_error_Inr)
  from pre bs f loop df show ?thesis
    unfolding st o by auto
qed

text \<open>
  The table a script writes: 5000 rows for CatBoost and AdaBoost, 5 for LightGBM.
\<close>

lemma script_table:
  assumes "script np search new_regressor be b X y = Inr out"
  shows "columns (results_df out) = [''train_rmse'', ''test_rmse'', ''train_r2'', ''test_r2'',
                                     ''train_mae'', ''test_mae'']
       \<and> length (rows (results_df out)) = repetitions b * 5
       \<and> repetitions b = (if b = LightGBM then 1 else 1000)"
proof -
  from run_script_Inr [OF assms [unfolded script_def]]
  obtain X_scaled glob2 single glob3 ms where
    loop: "evaluation_loop np be kf X_scaled y (repetitions b) (glob2, single, metrics_init)
             = Inr (glob3, final_model out, ms)"
    and df: "DataFrame ms = Inr (results_df out)"
    by (elim exE conjE) (rule that, assumption+)
  from evaluation_loop_lengths [OF loop]
  have "column_lengths ms = replicate 6 (repetitions b * 5)"
    by (simp add: column_lengths_def metrics_init_def numeral_eq_Suc kf_def)
  from DataFrame_of_equal_columns [OF this] df
  have "columns (results_df out) = [''train_rmse'', ''test_rmse'', ''train_r2'', ''test_r2'',
                                     ''train_mae'', ''test_mae'']"
    and "length (rows (results_df out)) = repetitions b * 5"
    by auto
  moreover have "repetitions b = (if b = LightGBM then 1 else 1000)"
    by (cases b) (simp_all add: repetitions_def)
  ultimately show ?thesis by blast
qed

text \<open>
  C10. The loop passes the one model object from fit to fit. In a script that runs to its end
  with at least one pass of the loop, the object enters the loop in the state \<open>single\<close> that
  the fit on the single split's training part left, and the state \<open>final_model\<close> it has after
  the loop, which is what \<^verbatim>\<open>shap.TreeExplainer\<close> is given, is the state left by a fit on the
  training rows of the last fold of the last repetition.
\<close>

theorem explainer_gets_last_fold_model:
  assumes "run_script np search new_regressor be opt (Suc R) X y = Inr out"
  shows "\<exists>X_scaled X_train X_test y_train y_test glob1 glob2 single glob3 ms
            folds X_train_kf y_train_kf m_prev.
           preprocess np X y (RandomState np 1)
             = (Inr (X_scaled, X_train, X_test, y_train, y_test), glob1)
           \<and> BayesSearchCV_fit np search opt X_train y_train glob1 = (Inr (best_params out), glob2)
           \<and> fit be (new_regressor (best_params out)) X_train y_train = Inr single
           \<and> evaluation_loop np be kf X_scaled y (Suc R) (glob2, single, metrics_init)
               = Inr (glob3, final_model out, ms)
           \<and> repetition_split np kf X_scaled glob2 R = Inr folds \<and> folds \<noteq> []
           \<and> take_rows X_scaled (fst (last folds)) = Inr X_train_kf
           \<and> take_rows y (fst (last folds)) = Inr y_train_kf
           \<and> fit be m_prev X_train_kf y_train_kf = Inr (final_model out)"
proof -
  from run_script_Inr [OF assms]
  obtain X_scaled X_train X_test y_train y_test glob1 glob2 single glob3 ms where
    pre: "preprocess np X y (RandomState np 1)
            = (Inr (X_scaled, X_train, X_test, y_train, y_test), glob1)"
    and bs: "BayesSearchCV_fit np search opt X_train y_train glob1 = (Inr (best_params out), glob2)"
    and f: "fit be (new_regressor (best_params out)) X_train y_train = Inr single"
    and loop: "evaluation_loop np be kf X_scaled y (Suc R) (glob2, single, metrics_init)
                 = Inr (glob3, final_model out, ms)"
    by blast
  from evaluation_loop_last_pass [OF loop]
  obtain m1 ms1 folds where
    rep: "repetition_split np kf X_scaled glob2 R = Inr folds"
    and pass: "fold_loop be X_scaled y folds (m1, ms1) = Inr (final_model out, ms)"
    by blast
  from rep have "KFold_split np kf X_scaled (glob_at np kf X_scaled glob2 R)
                   = (Inr folds, snd (KFold_split np kf X_scaled (glob_at np kf X_scaled glob2 R)))"
    by (simp add: repetition_split_def prod_eq_iff)
  from KFold_split_length [OF this] have ne: "folds \<noteq> []"
    by (auto simp: kf_def)
  from fold_loop_last [OF ne pass]
  obtain m_prev ms_prev where
    "evaluate_fold be X_scaled y (fst (last folds), snd (last folds)) (m_prev, ms_prev)
       = Inr (final_model out, ms)"
    by auto
  from evaluate_fold_Inr [OF this]
  obtain X_train_kf y_train_kf where
    "take_rows X_scaled (fst (last folds)) = Inr X_train_kf"
    "take_rows y (fst (last folds)) = Inr y_train_kf"
    "fit be m_prev X_train_kf y_train_kf = Inr (final_model out)"
    by blast
  with pre bs f loop rep ne show ?thesis by blast
qed

lemma script5_split: "KFold_split rotating kf [[- (1 / 2)], [- (1 / 2)], [2], [- (1 / 2)], [- (1 / 2)::real]] g
     = (Inr [([0, 1, 3, 4], [2]), ([0, 1, 2, 4], [3]), ([0, 1, 2, 3], [4]),
             ([1, 2, 3, 4], [0]), ([0, 2, 3, 4], [1])], g)"
  by (simp add: KFold_split_def kf_def iter_test_indices_def with_random_state_def rotating_def
      fold_sizes_def fold_of_slice_def upt_conv_Cons)

lemma script5_scaled:
  "fit_transform [[0], [0], [5], [0], [0]] = Inr [[- (1 / 2)], [- (1 / 2)], [2], [- (1 / 2)], [- (1 / 2)]]"
  by (simp add: fit_transform_def StandardScaler_fit_def StandardScaler_transform_def
      column_scale_def is_constant_feature_def float_eps_def power2_eq_square
      bind_error_def mean_def column_def transform_row_def Let_def)

lemma script5_preprocess:
  "preprocess rotating [[0], [0], [5], [0], [0]] [1, 2, 3, 4, 7] g
     = (Inr ([[- (1 / 2)], [- (1 / 2)], [2], [- (1 / 2)], [- (1 / 2)]],
             [[- (1 / 2)], [- (1 / 2)], [- (1 / 2)], [- (1 / 2)]], [[2]], [4, 7, 1, 2], [3]), g)"
  by (simp add: preprocess_def script5_scaled train_test_split_def shuffle_split_indices_def
      with_random_state_def rng_permutation_def rotating_def take_rows_def bind_error_simps
      upt_conv_Cons)

lemma script5_search:
  "BayesSearchCV_fit rotating first_draw_search (optimizer CatBoost) X_train y_train 1
     = (Inr 2, 2)"
  by (simp add: BayesSearchCV_fit_def optimizer_def with_random_state_def first_draw_search_def
      rotating_def upt_conv_Cons)

lemma script5_repetition:
  "repetition_split rotating kf [[- (1 / 2)], [- (1 / 2)], [2], [- (1 / 2)], [- (1 / 2)::real]] g r
     = Inr [([0, 1, 3, 4], [2]), ([0, 1, 2, 4], [3]), ([0, 1, 2, 3], [4]),
            ([1, 2, 3, 4], [0]), ([0, 2, 3, 4], [1])]"
  by (simp add: repetition_split_def script5_split)

lemma script5_run:
  "\<exists>out. run_script rotating first_draw_search (\<lambda>p. 0) mean_regressor (optimizer CatBoost)
           (Suc 1) [[0], [0], [5], [0], [0]] [1, 2, 3, 4, 7] = Inr out"
proof -
  let ?X = "[[0], [0], [5], [0], [0::real]]" and ?y = "[1, 2, 3, 4, 7::real]"
  let ?Xs = "[[- (1 / 2)], [- (1 / 2)], [2], [- (1 / 2)], [- (1 / 2)::real]]"
  let ?Xtr = "[[- (1 / 2)], [- (1 / 2)], [- (1 / 2)], [- (1 / 2)::real]]"
  have g0: "RandomState rotating 1 = 1" by (simp add: rotating_def)
  have pre: "preprocess rotating ?X ?y (RandomState rotating 1)
               = (Inr (?Xs, ?Xtr, [[2]], [4, 7, 1, 2], [3]), 1)"
    by (simp only: g0 script5_preprocess)
  have f: "fit mean_regressor ((\<lambda>p::nat. 0) 2) ?Xtr [4, 7, 1, 2] = Inr (7 / 2)"
    by (simp add: mean_regressor_def mean_def)
  have p1: "predict mean_regressor (7 / 2) ?Xtr = Inr [7 / 2, 7 / 2, 7 / 2, 7 / 2]"
    and p2: "predict mean_regressor (7 / 2) [[2]] = Inr [7 / 2]"
    by (simp_all add: mean_regressor_def eval_nat_numeral)
  obtain tr where e1: "evaluate [4, 7, 1, 2] [7 / 2, 7 / 2, 7 / 2, 7 / 2] = Inr tr"
    using evaluate_total [of "[7 / 2, 7 / 2, 7 / 2, 7 / 2]" "[4, 7, 1, 2]"] by auto
  obtain te where e2: "evaluate [3] [7 / 2] = Inr te"
    using evaluate_total [of "[7 / 2]" "[3]"] by auto
  have "5 \<le> int (length ?Xs)" and "length ?y = length ?Xs" by simp_all
  from evaluation_loop_succeeds [OF rotating_permuting kf_init this mean_regressor_never_fails,
      of "Suc 1" "(2, 7 / 2, metrics_init)"]
  obtain glob3 m' ms where
    loop: "evaluation_loop rotating mean_regressor kf ?Xs ?y (Suc 1) (2, 7 / 2, metrics_init)
             = Inr (glob3, m', ms)"
    by (metis prod_cases3)
  from evaluation_loop_lengths [OF loop]
  have "column_lengths ms = replicate 6 (Suc 1 * nat (n_splits kf))"
    by (simp add: column_lengths_def metrics_init_def numeral_eq_Suc)
  from DataFrame_of_equal_columns [OF this] obtain df where df: "DataFrame ms = Inr df" by blast
  have "run_script rotating first_draw_search (\<lambda>p. 0) mean_regressor (optimizer CatBoost)
               (Suc 1) ?X ?y
             = Inr \<lparr>best_params = 2, holdout_train = tr, holdout_test = te,
                    results_df = df, final_model = m'\<rparr>"
    by (simp only: run_script_def pre script5_search f p1 p2 e1 e2 kf_init loop df
        bind_error_simps prod.case sum.case)
  then show ?thesis ..
qed

theorem explainer_gets_last_fold_model_witness:
  "\<exists>out. run_script rotating first_draw_search (\<lambda>p. 0) mean_regressor (optimizer CatBoost)
           (Suc 1) [[0], [0], [5], [0], [0]] [1, 2, 3, 4, 7] = Inr out
         \<and> fit mean_regressor 0 [[- (1 / 2)], [- (1 / 2)], [- (1 / 2)], [- (1 / 2)]] [4, 7, 1, 2]
             = Inr (7 / 2)
         \<and> final_model out = 15 / 4"
proof -
  let ?X = "[[0], [0], [5], [0], [0::real]]" and ?y = "[1, 2, 3, 4, 7::real]"
  let ?Xs = "[[- (1 / 2)], [- (1 / 2)], [2], [- (1 / 2)], [- (1 / 2)::real]]"
  from script5_run obtain out where
    run: "run_script rotating first_draw_search (\<lambda>p. 0) mean_regressor (optimizer CatBoost)
            (Suc 1) ?X ?y = Inr out" ..
  have f: "fit mean_regressor 0 [[- (1 / 2)], [- (1 / 2)], [- (1 / 2)], [- (1 / 2)]] [4, 7, 1, 2]
             = Inr (7 / 2)"
    by (simp add: mean_regressor_def mean_def)
  from explainer_gets_last_fold_model [OF run]
  obtain X_scaled X_train X_test y_train y_test glob1 glob2 folds X_train_kf y_train_kf m_prev
    where a: "preprocess rotating ?X ?y (RandomState rotating 1)
                = (Inr (X_scaled, X_train, X_test, y_train, y_test), glob1)"
      and rep: "repetition_split rotating kf X_scaled glob2 1 = Inr folds"
      and rows: "take_rows ?y (fst (last folds)) = Inr y_train_kf"
      and fm: "fit mean_regressor m_prev X_train_kf y_train_kf = Inr (final_model out)"
    by (elim exE conjE) (rule that, assumption+)
  have "RandomState rotating 1 = 1" by (simp add: rotating_def)
  from a [unfolded this script5_preprocess] have "X_scaled = ?Xs" by simp
  with rep have "folds = [([0, 1, 3, 4], [2]), ([0, 1, 2, 4], [3]), ([0, 1, 2, 3], [4]),
                          ([1, 2, 3, 4], [0]), ([0, 2, 3, 4], [1])]"
    by (simp add: script5_repetition)
  with rows have "y_train_kf = [1, 3, 4, 7]"
    by (simp add: take_rows_def)
  with fm have "final_model out = 15 / 4"
    by (simp add: mean_regressor_def mean_def)
  with run f show ?thesis by blast
qed

section \<open>The data the loop partitions\<close>

lemma shuffle_split_indices_Inr:
  assumes "shuffle_split_indices np n test_size seed glob = (Inr (train, test), glob')"
  shows "length train < n"
proof -
  from assms have n: "n \<noteq> 0" and ts: "0 < test_size"
    by (auto simp: shuffle_split_indices_def split: if_splits)
  then have "0 < test_size * real n" by simp
  then have "0 < \<lceil>test_size * real n\<rceil>" by simp
  then have "0 < nat \<lceil>test_size * real n\<rceil>" by (simp only: zero_less_nat_eq)
  then have nt: "1 \<le> nat \<lceil>test_size * real n\<rceil>" by linarith
  from assms have "length train \<le> n - nat \<lceil>test_size * real n\<rceil>"
    by (auto simp: shuffle_split_indices_def Let_def split: if_splits prod.splits)
  with nt n show ?thesis by linarith
qed

lemma evaluation_loop_first_split:
  assumes "evaluation_loop np be kf' X y (Suc R) (glob, m, ms) = Inr st"
  shows "\<exists>folds glob1. KFold_split np kf' X glob = (Inr folds, glob1)"
  using assms by (auto split: prod.splits sum.splits)

lemma take_rows_bound:
  assumes "take_rows X index = Inr rs" and "j \<in> set index"
  shows "j < length X"
  using assms by (auto simp: take_rows_def list_all_iff split: if_splits)

text \<open>
  An index of the dataset is outside the test set of one of the first two folds, so it is among
  that fold's train indices.
\<close>

lemma KFold_split_trains:
  assumes perm: "permuting np"
      and init: "KFold_init k sh rs = Inr kf'"
      and split: "KFold_split np kf' X glob = (Inr folds, glob')"
      and j: "j < length X"
  shows "\<exists>(train, test)\<in>set folds. j \<in> set train"
proof -
  note facts = KFold_split_tests [OF perm init split]
  have len: "length folds = nat k" using KFold_split_length [OF split] facts(3) by simp
  with facts(4) have two: "0 < length folds" "1 < length folds" by simp_all
  have "distinct (concat (map snd folds))"
    using facts(1) by (metis distinct_upt mset_eq_imp_distinct_iff)
  from distinct_concat_nth_disjoint [OF this, of 0 1] two
  have disj: "set (snd (folds ! 0)) \<inter> set (snd (folds ! 1)) = {}" by simp
  define i where "i = (if j \<in> set (snd (folds ! 0)) then 1 else (0::nat))"
  have i: "i < length folds" and out: "j \<notin> set (snd (folds ! i))"
    using two disj by (auto simp: i_def)
  obtain train test where f: "folds ! i = (train, test)" by (cases "folds ! i")
  with i have mem: "(train, test) \<in> set folds" by (metis nth_mem)
  from KFold_split_fold(1) [OF split mem] out f j have "j \<in> set train" by simp
  with mem show ?thesis by blast
qed

lemma glob_at_Suc:
  "glob_at np kf' X glob (Suc r) = snd (KFold_split np kf' X (glob_at np kf' X glob r))"
  by (induction r arbitrary: glob) simp_all

text \<open>
  Pass \<open>r\<close> of a run that went through: the run is \<open>r\<close> passes, then the split of pass \<open>r\<close>
  and the inner loop over its folds, then the passes that remain.
\<close>

lemma evaluation_loop_pass:
  assumes run: "evaluation_loop np be kf' X y R (glob, m, ms) = Inr st'" and r: "r < R"
  shows "\<exists>m_r ms_r folds m_r' ms_r'.
           evaluation_loop np be kf' X y r (glob, m, ms) = Inr (glob_at np kf' X glob r, m_r, ms_r)
           \<and> KFold_split np kf' X (glob_at np kf' X glob r)
               = (Inr folds, glob_at np kf' X glob (Suc r))
           \<and> fold_loop be X y folds (m_r, ms_r) = Inr (m_r', ms_r')
           \<and> evaluation_loop np be kf' X y (R - Suc r)
                 (glob_at np kf' X glob (Suc r), m_r', ms_r') = Inr st'"
proof -
  from r have "r + Suc (R - Suc r) = R" by simp
  with run have "evaluation_loop np be kf' X y (r + Suc (R - Suc r)) (glob, m, ms) = Inr st'"
    by simp
  then obtain st_r where a: "evaluation_loop np be kf' X y r (glob, m, ms) = Inr st_r"
    and b: "evaluation_loop np be kf' X y (Suc (R - Suc r)) st_r = Inr st'"
    unfolding evaluation_loop_add bind_error_Inr by blast
  obtain g_r m_r ms_r where st_r: "st_r = (g_r, m_r, ms_r)" by (cases st_r)
  from evaluation_loop_glob [OF a [unfolded st_r]] have g_r: "g_r = glob_at np kf' X glob r" .
  from b obtain folds g2 m_r' ms_r' where
    split: "KFold_split np kf' X g_r = (Inr folds, g2)"
    and pass: "fold_loop be X y folds (m_r, ms_r) = Inr (m_r', ms_r')"
    and rest: "evaluation_loop np be kf' X y (R - Suc r) (g2, m_r', ms_r') = Inr st'"
    unfolding st_r by (auto simp: bind_error_Inr split: prod.splits sum.splits)
  from split have g2: "g2 = glob_at np kf' X glob (Suc r)"
    unfolding glob_at_Suc g_r by simp
  from a split pass rest show ?thesis
    unfolding st_r g_r g2 by blast
qed

lemma fold_loop_each:
  assumes "fold_loop be X y folds st = Inr st'" and "idx \<in> set folds"
  shows "\<exists>m1 ms1 m2 ms2. evaluate_fold be X y idx (m1, ms1) = Inr (m2, ms2)"
proof -
  from assms(2) obtain pre post where "folds = pre @ idx # post"
    by (auto simp: in_set_conv_decomp)
  with assms(1) obtain s1 s2 where "evaluate_fold be X y idx s1 = Inr s2"
    by (auto simp: fold_loop_append bind_error_Inr)
  then show ?thesis by (cases s1, cases s2) auto
qed

text \<open>
  C9. In a script that runs to its end, the evaluation loop runs on \<open>X_scaled\<close>, the scaled
  matrix of all \<open>N\<close> rows of \<open>X\<close>, not on the training part \<open>X_train\<close> of the single split
  (which has fewer rows). The run of the loop is, for every repetition \<open>r\<close>: \<open>r\<close> passes, then
  \<^verbatim>\<open>kf.split(X_scaled)\<close> and the inner loop over its folds on \<open>X_scaled\<close>, then the passes that
  remain. The train and test indices of every fold of that split together are \<open>0..<N\<close>, and
  every index \<open>j\<close> of the single split's held-out test set is among the train indices of one
  of its folds, whose fit is given row \<open>j\<close> of \<open>X_scaled\<close>. The shuffle is assumed to
  rearrange its argument.
\<close>

theorem kfold_over_full_dataset:
  assumes perm: "permuting np"
      and run: "run_script np search new_regressor be opt R X y = Inr out"
      and r: "r < R"
  shows "\<exists>X_scaled X_train X_test y_train y_test glob1 glob2 single glob3 ms train test
            m_r ms_r folds m_r' ms_r'.
           preprocess np X y (RandomState np 1)
             = (Inr (X_scaled, X_train, X_test, y_train, y_test), glob1)
           \<and> shuffle_split_indices np (length X) 0.2 (Some 1) (RandomState np 1)
               = (Inr (train, test), glob1)
           \<and> take_rows X_scaled train = Inr X_train \<and> take_rows X_scaled test = Inr X_test
           \<and> length X_scaled = length X \<and> length X_train < length X
           \<and> BayesSearchCV_fit np search opt X_train y_train glob1 = (Inr (best_params out), glob2)
           \<and> fit be (new_regressor (best_params out)) X_train y_train = Inr single
           \<and> evaluation_loop np be kf X_scaled y R (glob2, single, metrics_init)
               = Inr (glob3, final_model out, ms)
           \<and> evaluation_loop np be kf X_scaled y r (glob2, single, metrics_init)
               = Inr (glob2, m_r, ms_r)
           \<and> KFold_split np kf X_scaled glob2 = (Inr folds, glob2)
           \<and> fold_loop be X_scaled y folds (m_r, ms_r) = Inr (m_r', ms_r')
           \<and> evaluation_loop np be kf X_scaled y (R - Suc r) (glob2, m_r', ms_r')
               = Inr (glob3, final_model out, ms)
           \<and> (\<forall>(tr, te)\<in>set folds. set tr \<union> set te = {0..<length X})
           \<and> (\<forall>j\<in>set test. \<exists>(tr, te)\<in>set folds. j \<in> set tr
                 \<and> (\<exists>m1 X_train_kf y_train_kf m2.
                       take_rows X_scaled tr = Inr X_train_kf \<and> take_rows y tr = Inr y_train_kf
                       \<and> X_scaled ! j \<in> set X_train_kf
                       \<and> fit be m1 X_train_kf y_train_kf = Inr m2))"
proof -
  from run_script_Inr [OF run]
  obtain X_scaled X_train X_test y_train y_test glob1 glob2 single glob3 ms where
    pre: "preprocess np X y (RandomState np 1)
            = (Inr (X_scaled, X_train, X_test, y_train, y_test), glob1)"
    and bs: "BayesSearchCV_fit np search opt X_train y_train glob1 = (Inr (best_params out), glob2)"
    and f: "fit be (new_regressor (best_params out)) X_train y_train = Inr single"
    and loop: "evaluation_loop np be kf X_scaled y R (glob2, single, metrics_init)
                 = Inr (glob3, final_model out, ms)"
    by (elim exE conjE) (rule that, assumption+)
  from preprocess_Inr [OF pre]
  obtain sc train test where
    xs: "X_scaled = map (transform_row sc) X"
    and idx: "shuffle_split_indices np (length X) 0.2 (Some 1) (RandomState np 1)
                = (Inr (train, test), glob1)"
    and rows: "take_rows X_scaled train = Inr X_train" "take_rows X_scaled test = Inr X_test"
    by (elim exE conjE) (rule that, assumption+)
  have len: "length X_scaled = length X" by (simp add: xs)
  have short: "length X_train < length X"
    using shuffle_split_indices_Inr [OF idx] take_rows_length [OF rows(1)] by simp
  have seeded: "random_state kf = Some 1" by (simp add: kf_def)
  from evaluation_loop_pass [OF loop r, unfolded glob_at_seeded [OF seeded]]
  obtain m_r ms_r folds m_r' ms_r' where
    before: "evaluation_loop np be kf X_scaled y r (glob2, single, metrics_init)
               = Inr (glob2, m_r, ms_r)"
    and split: "KFold_split np kf X_scaled glob2 = (Inr folds, glob2)"
    and pass: "fold_loop be X_scaled y folds (m_r, ms_r) = Inr (m_r', ms_r')"
    and rest: "evaluation_loop np be kf X_scaled y (R - Suc r) (glob2, m_r', ms_r')
                 = Inr (glob3, final_model out, ms)"
    by (elim exE conjE) (rule that, assumption+)
  have cover: "\<forall>(tr, te)\<in>set folds. set tr \<union> set te = {0..<length X}"
  proof (clarify)
    fix tr te assume "(tr, te) \<in> set folds"
    from KFold_split_fold(1,2) [OF split this] len
    show "set tr \<union> set te = {0..<length X}" by auto
  qed
  have trains: "\<forall>j\<in>set test. \<exists>(tr, te)\<in>set folds. j \<in> set tr
                 \<and> (\<exists>m1 X_train_kf y_train_kf m2.
                       take_rows X_scaled tr = Inr X_train_kf \<and> take_rows y tr = Inr y_train_kf
                       \<and> X_scaled ! j \<in> set X_train_kf
                       \<and> fit be m1 X_train_kf y_train_kf = Inr m2)"
  proof
    fix j assume "j \<in> set test"
    from KFold_split_trains [OF perm kf_init split take_rows_bound [OF rows(2) this]]
    obtain tr te where mem: "(tr, te) \<in> set folds" and j: "j \<in> set tr" by blast
    from fold_loop_each [OF pass mem]
    obtain m1 ms1 m2 ms2 where "evaluate_fold be X_scaled y (tr, te) (m1, ms1) = Inr (m2, ms2)"
      by blast
    from evaluate_fold_Inr [OF this]
    obtain X_train_kf y_train_kf where
      t: "take_rows X_scaled tr = Inr X_train_kf" "take_rows y tr = Inr y_train_kf"
      and ft: "fit be m1 X_train_kf y_train_kf = Inr m2"
      by blast
    from t(1) j have "X_scaled ! j \<in> set X_train_kf"
      by (auto simp: take_rows_def split: if_splits)
    with mem j t ft
    show "\<exists>(tr, te)\<in>set folds. j \<in> set tr
                 \<and> (\<exists>m1 X_train_kf y_train_kf m2.
                       take_rows X_scaled tr = Inr X_train_kf \<and> take_rows y tr = Inr y_train_kf
                       \<and> X_scaled ! j \<in> set X_train_kf
                       \<and> fit be m1 X_train_kf y_train_kf = Inr m2)"
      by blast
  qed
  from pre idx rows len short bs f loop before split pass rest cover trains
  show ?thesis by blast
qed


lemma shuffle_split_nonempty:
  assumes perm: "permuting np"
      and idx: "shuffle_split_indices np n test_size seed glob = (Inr (train, test), glob')"
  shows "train \<noteq> []" and "test \<noteq> []"
proof -
  define permutation where
    "permutation = fst (with_random_state np seed (rng_permutation np n) glob)"
  define n_test where "n_test = nat \<lceil>test_size * real n\<rceil>"
  have "mset permutation = mset [0..<n]"
    using perm
    by (simp add: permutation_def permuting_def with_random_state_def rng_permutation_def
        split: option.splits)
  then have len: "length permutation = n"
    by (metis length_upt mset_eq_length minus_nat.diff_0)
  from idx have n: "n \<noteq> 0" and ts: "0 < test_size" and tr0: "n - n_test \<noteq> 0"
    and train: "train = take (n - n_test) (drop n_test permutation)"
    and test: "test = take n_test permutation"
    by (auto simp: shuffle_split_indices_def Let_def permutation_def n_test_def
        split: if_splits prod.splits)
  from n ts have "0 < test_size * real n" by simp
  then have "0 < \<lceil>test_size * real n\<rceil>" by simp
  then have "0 < n_test" unfolding n_test_def by (simp only: zero_less_nat_eq)
  with len n show "test \<noteq> []" by (auto simp: test)
  from tr0 len show "train \<noteq> []" by (auto simp: train)
qed

text \<open>
  A script runs to its end when the shuffle rearranges, the regressor never raises, the
  preprocessing and the search went through and the dataset has at least five rows.
\<close>

lemma run_script_succeeds:
  assumes perm: "permuting np" and be: "never_fails be"
      and pre: "preprocess np X y (RandomState np 1)
                  = (Inr (X_scaled, X_train, X_test, y_train, y_test), glob1)"
      and bs: "BayesSearchCV_fit np search opt X_train y_train glob1 = (Inr best, glob2)"
      and enough: "5 \<le> length X"
  shows "\<exists>out. run_script np search new_regressor be opt R X y = Inr out"
proof -
  from preprocess_Inr [OF pre]
  obtain sc train test where
    xs: "X_scaled = map (transform_row sc) X"
    and idx: "shuffle_split_indices np (length X) 0.2 (Some 1) (RandomState np 1)
                = (Inr (train, test), glob1)"
    and rows: "take_rows X_scaled train = Inr X_train" "take_rows X_scaled test = Inr X_test"
      "take_rows y train = Inr y_train" "take_rows y test = Inr y_test"
    and ly: "length y = length X"
    by (elim exE conjE) (rule that, assumption+)
  note ne = shuffle_split_nonempty [OF perm idx]
  have l1: "length y_train = length X_train" "y_train \<noteq> []"
    using take_rows_length [OF rows(1)] take_rows_length [OF rows(3)] ne(1) by auto
  have l2: "length y_test = length X_test" "y_test \<noteq> []"
    using take_rows_length [OF rows(2)] take_rows_length [OF rows(4)] ne(2) by auto
  from be obtain single where f: "fit be (new_regressor best) X_train y_train = Inr single"
    unfolding never_fails_def by blast
  from be obtain p1 where p1: "predict be single X_train = Inr p1" "length p1 = length X_train"
    unfolding never_fails_def by blast
  from be obtain p2 where p2: "predict be single X_test = Inr p2" "length p2 = length X_test"
    unfolding never_fails_def by blast
  from evaluate_total [of p1 y_train] p1(2) l1 obtain tr where e1: "evaluate y_train p1 = Inr tr"
    by auto
  from evaluate_total [of p2 y_test] p2(2) l2 obtain te where e2: "evaluate y_test p2 = Inr te"
    by auto
  have "5 \<le> int (length X_scaled)" and "length y = length X_scaled"
    using enough ly by (simp_all add: xs)
  from evaluation_loop_succeeds [OF perm kf_init this be, of R "(glob2, single, metrics_init)"]
  obtain glob3 m' ms where
    loop: "evaluation_loop np be kf X_scaled y R (glob2, single, metrics_init)
             = Inr (glob3, m', ms)"
    by (metis prod_cases3)
  from evaluation_loop_lengths [OF loop]
  have "column_lengths ms = replicate 6 (R * nat (n_splits kf))"
    by (simp add: column_lengths_def metrics_init_def numeral_eq_Suc)
  from DataFrame_of_equal_columns [OF this] obtain df where df: "DataFrame ms = Inr df" by blast
  have "run_script np search new_regressor be opt R X y
          = Inr \<lparr>best_params = best, holdout_train = tr, holdout_test = te,
                 results_df = df, final_model = m'\<rparr>"
    by (simp only: run_script_def pre bs f p1(1) p2(1) e1 e2 kf_init loop df
        bind_error_simps prod.case sum.case)
  then show ?thesis ..
qed

text \<open>
  A run on twelve rows: one column of alternating 1 and -1 (mean 0, deviation 1, so scaling
  leaves it as it is) and the targets 1 to 12.
\<close>

lemma script12_preprocess:
  "preprocess rotating [[1], [- 1], [1], [- 1], [1], [- 1], [1], [- 1], [1], [- 1], [1], [- 1]]
       [1, 2, 3, 4, 5, 6, 7, 8, 9, 10, 11, 12] g
     = (Inr ([[1], [- 1], [1], [- 1], [1], [- 1], [1], [- 1], [1], [- 1], [1], [- 1]],
             [[- 1], [1], [- 1], [1], [- 1], [1], [- 1], [1], [- 1]], [[1], [- 1], [1]],
             [6, 7, 8, 9, 10, 11, 12, 1, 2], [3, 4, 5]), g)"
proof -
  have "fit_transform [[1], [- 1], [1], [- 1], [1], [- 1], [1], [- 1], [1], [- 1], [1], [- 1]]
          = Inr [[1], [- 1], [1], [- 1], [1], [- 1], [1], [- 1], [1], [- 1], [1], [- 1]]"
    by (simp add: fit_transform_def StandardScaler_fit_def StandardScaler_transform_def
      column_scale_def is_constant_feature_def float_eps_def power2_eq_square
      bind_error_def mean_def column_def transform_row_def Let_def)
  then show ?thesis
    by (simp add: preprocess_def train_test_split_def shuffle_split_indices_def
      with_random_state_def rng_permutation_def rotating_def take_rows_def bind_error_simps
      upt_conv_Cons)
qed

lemma script12_split:
  "KFold_split rotating kf
       [[1], [- 1], [1], [- 1], [1], [- 1], [1], [- 1], [1], [- 1], [1], [- 1::real]] g
     = (Inr [([0, 1, 5, 6, 7, 8, 9, 10, 11], [2, 3, 4]),
             ([0, 1, 2, 3, 4, 8, 9, 10, 11], [5, 6, 7]),
             ([0, 1, 2, 3, 4, 5, 6, 7, 10, 11], [8, 9]),
             ([0, 1, 2, 3, 4, 5, 6, 7, 8, 9], [10, 11]),
             ([2, 3, 4, 5, 6, 7, 8, 9, 10, 11], [0, 1])], g)"
  by (simp add: KFold_split_def kf_def iter_test_indices_def with_random_state_def rotating_def
      fold_sizes_def fold_of_slice_def upt_conv_Cons)


theorem kfold_over_full_dataset_witness:
  "\<exists>out m_r ms_r m_r' ms_r'.
      run_script rotating first_draw_search (\<lambda>p. 0) mean_regressor (optimizer CatBoost) (Suc 1)
          [[1], [- 1], [1], [- 1], [1], [- 1], [1], [- 1], [1], [- 1], [1], [- 1]]
          [1, 2, 3, 4, 5, 6, 7, 8, 9, 10, 11, 12] = Inr out
    \<and> shuffle_split_indices rotating 12 0.2 (Some 1) 1
        = (Inr ([5, 6, 7, 8, 9, 10, 11, 0, 1], [2, 3, 4]), 1)
    \<and> evaluation_loop rotating mean_regressor kf
          [[1], [- 1], [1], [- 1], [1], [- 1], [1], [- 1], [1], [- 1], [1], [- 1]]
          [1, 2, 3, 4, 5, 6, 7, 8, 9, 10, 11, 12] 1 (2, 22 / 3, metrics_init)
        = Inr (2, m_r, ms_r)
    \<and> fold_loop mean_regressor
          [[1], [- 1], [1], [- 1], [1], [- 1], [1], [- 1], [1], [- 1], [1], [- 1]]
          [1, 2, 3, 4, 5, 6, 7, 8, 9, 10, 11, 12]
          [([0, 1, 5, 6, 7, 8, 9, 10, 11], [2, 3, 4]),
           ([0, 1, 2, 3, 4, 8, 9, 10, 11], [5, 6, 7]),
           ([0, 1, 2, 3, 4, 5, 6, 7, 10, 11], [8, 9]),
           ([0, 1, 2, 3, 4, 5, 6, 7, 8, 9], [10, 11]),
           ([2, 3, 4, 5, 6, 7, 8, 9, 10, 11], [0, 1])] (m_r, ms_r)
        = Inr (m_r', ms_r')
    \<and> (\<exists>(tr, te)\<in>set [([0, 1, 5, 6, 7, 8, 9, 10, 11], [2, 3, 4]),
                          ([0, 1, 2, 3, 4, 8, 9, 10, 11], [5, 6, 7]),
                          ([0, 1, 2, 3, 4, 5, 6, 7, 10, 11], [8, 9]),
                          ([0, 1, 2, 3, 4, 5, 6, 7, 8, 9], [10, 11]),
                          ([2, 3, 4, 5, 6, 7, 8, 9, 10, 11], [0, 1::nat])]. (2::nat) \<in> set tr)"
proof -
  let ?X = "[[1], [- 1], [1], [- 1], [1], [- 1], [1], [- 1], [1], [- 1], [1], [- 1::real]]"
  let ?y = "[1, 2, 3, 4, 5, 6, 7, 8, 9, 10, 11, 12::real]"
  let ?Xtr = "[[- 1], [1], [- 1], [1], [- 1], [1], [- 1], [1], [- 1::real]]"
  let ?ytr = "[6, 7, 8, 9, 10, 11, 12, 1, 2::real]"
  let ?F = "[([0, 1, 5, 6, 7, 8, 9, 10, 11], [2, 3, 4]),
             ([0, 1, 2, 3, 4, 8, 9, 10, 11], [5, 6, 7]),
             ([0, 1, 2, 3, 4, 5, 6, 7, 10, 11], [8, 9]),
             ([0, 1, 2, 3, 4, 5, 6, 7, 8, 9], [10, 11]),
             ([2, 3, 4, 5, 6, 7, 8, 9, 10, 11], [0, 1::nat])]"
  have g0: "RandomState rotating 1 = 1" by (simp add: rotating_def)
  have pre: "preprocess rotating ?X ?y (RandomState rotating 1)
               = (Inr (?X, ?Xtr, [[1], [- 1], [1]], ?ytr, [3, 4, 5]), 1)"
    by (simp only: g0 script12_preprocess)
  have l12: "length ?X = 12" by simp
  have idx12: "shuffle_split_indices rotating 12 0.2 (Some 1) 1
                 = (Inr ([5, 6, 7, 8, 9, 10, 11, 0, 1], [2, 3, 4]), 1)"
    by (simp add: shuffle_split_indices_def with_random_state_def rng_permutation_def
        rotating_def upt_conv_Cons)
  have "5 \<le> length ?X" by simp
  from run_script_succeeds [OF rotating_permuting mean_regressor_never_fails pre
      script5_search this]
  obtain out where
    run: "run_script rotating first_draw_search (\<lambda>p. 0) mean_regressor (optimizer CatBoost)
            (Suc 1) ?X ?y = Inr out" ..
  have "1 < Suc 1" by simp
  from kfold_over_full_dataset [OF rotating_permuting run this]
  obtain X_scaled X_train X_test y_train y_test glob1 glob2 single train test
      m_r ms_r folds m_r' ms_r'
    where a: "preprocess rotating ?X ?y (RandomState rotating 1)
                = (Inr (X_scaled, X_train, X_test, y_train, y_test), glob1)"
      and i: "shuffle_split_indices rotating (length ?X) 0.2 (Some 1) (RandomState rotating 1)
                = (Inr (train, test), glob1)"
      and bs: "BayesSearchCV_fit rotating first_draw_search (optimizer CatBoost) X_train y_train
                 glob1 = (Inr (best_params out), glob2)"
      and f: "fit mean_regressor ((\<lambda>p. 0) (best_params out)) X_train y_train = Inr single"
      and before: "evaluation_loop rotating mean_regressor kf X_scaled ?y 1
                     (glob2, single, metrics_init) = Inr (glob2, m_r, ms_r)"
      and split: "KFold_split rotating kf X_scaled glob2 = (Inr folds, glob2)"
      and pass: "fold_loop mean_regressor X_scaled ?y folds (m_r, ms_r) = Inr (m_r', ms_r')"
      and trains: "\<forall>j\<in>set test. \<exists>(tr, te)\<in>set folds. j \<in> set tr
                 \<and> (\<exists>m1 X_train_kf y_train_kf m2.
                       take_rows X_scaled tr = Inr X_train_kf \<and> take_rows ?y tr = Inr y_train_kf
                       \<and> X_scaled ! j \<in> set X_train_kf
                       \<and> fit mean_regressor m1 X_train_kf y_train_kf = Inr m2)"
    by (elim exE conjE) (rule that, assumption+)
  from a [unfolded pre prod.inject sum.inject]
  have x: "X_scaled = ?X" "X_train = ?Xtr" "y_train = ?ytr" "glob1 = 1"
    by blast+
  from bs [unfolded x script5_search] have g2: "glob2 = 2" by simp
  from f have s: "single = 22 / 3"
    by (simp add: x mean_regressor_def mean_def)
  from split have fo: "folds = ?F"
    by (simp add: x script12_split)
  from i [unfolded g0 l12 idx12] have t: "test = [2, 3, 4]" by simp
  from trains have "\<exists>(tr, te)\<in>set folds. 2 \<in> set tr"
    unfolding t by auto
  with run idx12 before pass show ?thesis
    unfolding x g2 s fo by blast
qed

section \<open>Scaling and the single split\<close>

lemma StandardScaler_fit_Inr:
  assumes "StandardScaler_fit X = Inr sc"
  shows "\<forall>j<length (scaler_mean sc). scaler_mean sc ! j = mean (column X j)"
    and "\<forall>j<length (scaler_scale sc). scaler_scale sc ! j = column_scale (column X j)"
  using assms
  by (auto simp: StandardScaler_fit_def split: list.splits if_splits)

text \<open>
  The scale of a column: 1 when the column is constant, and also when it is nearly so, as for
  the two values \<open>10\<^sup>9\<close> and \<open>10\<^sup>9 + 2\<^sup>-\<^sup>2\<^sup>1\<close>; the standard deviation otherwise.
\<close>

lemma column_scale_examples:
  "column_scale [0, 0, 0, 0, 0] = 1"
  "column_scale [10 ^ 9, 10 ^ 9 + 1 / 2 ^ 21] = 1"
  "column_scale [0, 0, 5, 0, 0] = 2"
  by (simp_all add: column_scale_def is_constant_feature_def float_eps_def mean_def Let_def
      power2_eq_square)

text \<open>
  C3, as the code has it. The scaler is fitted on the whole feature matrix, before the split:
  its means and scales are those of the columns of all rows of \<open>X\<close> (the scale of a column
  is its population standard deviation, or 1 where the column counts as constant), and the
  training part and the held-out part of the single split are both rows of \<open>X\<close> transformed
  with these statistics.
\<close>

theorem scaler_fitted_on_all_rows:
  assumes "preprocess np X y glob = (Inr (X_scaled, X_train, X_test, y_train, y_test), glob')"
  shows "\<exists>sc train test.
           StandardScaler_fit X = Inr sc
           \<and> (\<forall>j<length (scaler_mean sc). scaler_mean sc ! j = mean (column X j))
           \<and> (\<forall>j<length (scaler_scale sc).
                 scaler_scale sc ! j
                   = (let m = mean (column X j);
                          var = mean (map (\<lambda>x. (x - m)\<^sup>2) (column X j))
                      in if var \<le> real (length X) * float_eps * var
                                    + (real (length X) * m * float_eps)\<^sup>2
                         then 1 else sqrt var))
           \<and> shuffle_split_indices np (length X) 0.2 (Some 1) glob = (Inr (train, test), glob')
           \<and> X_scaled = map (transform_row sc) X
           \<and> X_train = map (\<lambda>i. transform_row sc (X ! i)) train
           \<and> X_test = map (\<lambda>i. transform_row sc (X ! i)) test"
proof -
  from preprocess_Inr [OF assms]
  obtain sc train test where
    sc: "StandardScaler_fit X = Inr sc"
    and xs: "X_scaled = map (transform_row sc) X"
    and idx: "shuffle_split_indices np (length X) 0.2 (Some 1) glob = (Inr (train, test), glob')"
    and rows: "take_rows X_scaled train = Inr X_train" "take_rows X_scaled test = Inr X_test"
    by (elim exE conjE) (rule that, assumption+)
  have sel: "rs = map (\<lambda>i. transform_row sc (X ! i)) index"
    if "take_rows X_scaled index = Inr rs" for index rs
  proof -
    from that have "\<forall>i\<in>set index. i < length X" and "rs = map (\<lambda>i. X_scaled ! i) index"
      by (auto simp: take_rows_def list_all_iff xs split: if_splits)
    then show ?thesis by (simp add: xs)
  qed
  have scales: "\<forall>j<length (scaler_scale sc).
                 scaler_scale sc ! j
                   = (let m = mean (column X j);
                          var = mean (map (\<lambda>x. (x - m)\<^sup>2) (column X j))
                      in if var \<le> real (length X) * float_eps * var
                                    + (real (length X) * m * float_eps)\<^sup>2
                         then 1 else sqrt var)"
    using StandardScaler_fit_Inr(2) [OF sc]
    by (simp add: column_scale_def is_constant_feature_def column_def)
  from sc StandardScaler_fit_Inr(1) [OF sc] scales idx xs sel [OF rows(1)] sel [OF rows(2)]
  show ?thesis by blast
qed

theorem scaler_fitted_on_all_rows_witness:
  "preprocess rotating [[0], [0], [5], [0], [0]] [1, 2, 3, 4, 7] 1
     = (Inr ([[- (1 / 2)], [- (1 / 2)], [2], [- (1 / 2)], [- (1 / 2)]],
             [[- (1 / 2)], [- (1 / 2)], [- (1 / 2)], [- (1 / 2)]], [[2]], [4, 7, 1, 2], [3]), 1)
   \<and> (\<exists>sc. StandardScaler_fit [[0], [0], [5], [0], [0]] = Inr sc
            \<and> scaler_mean sc = [1] \<and> scaler_scale sc = [2]
            \<and> [[- (1 / 2)], [- (1 / 2)], [- (1 / 2)], [- (1 / 2)]]
                = map (\<lambda>i. transform_row sc ([[0], [0], [5], [0], [0]] ! i)) [3, 4, 0, 1])"
proof -
  let ?X = "[[0], [0], [5], [0], [0::real]]"
  have idx5: "shuffle_split_indices rotating (length ?X) 0.2 (Some 1) 1
                = (Inr ([3, 4, 0, 1], [2]), 1)"
    by (simp add: shuffle_split_indices_def with_random_state_def rng_permutation_def
        rotating_def upt_conv_Cons)
  have fit5: "StandardScaler_fit ?X = Inr \<lparr>scaler_mean = [1], scaler_scale = [2]\<rparr>"
    by (simp add: StandardScaler_fit_def column_scale_def is_constant_feature_def float_eps_def
        power2_eq_square mean_def column_def Let_def)
  from scaler_fitted_on_all_rows [OF script5_preprocess [of 1]]
  obtain sc train test where
    sc: "StandardScaler_fit ?X = Inr sc"
    and idx: "shuffle_split_indices rotating (length ?X) 0.2 (Some 1) 1 = (Inr (train, test), 1)"
    and tr: "[[- (1 / 2)], [- (1 / 2)], [- (1 / 2)], [- (1 / 2)]]
               = map (\<lambda>i. transform_row sc (?X ! i)) train"
    by (elim exE conjE) (rule that, assumption+)
  from idx [unfolded idx5] have "train = [3, 4, 0, 1]" by simp
  with sc [unfolded fit5] tr fit5 script5_preprocess [of 1] show ?thesis
    by (intro conjI exI [of _ "\<lparr>scaler_mean = [1], scaler_scale = [2]\<rparr>"]) auto
qed

text \<open>
  Two feature matrices that differ in row 2 only, the row the single split holds out: the
  scaled training features differ.
\<close>

theorem scaling_leak_counterexample:
  "preprocess rotating [[0], [0], [5], [0], [0]] [1, 2, 3, 4, 7] 1
     = (Inr ([[- (1 / 2)], [- (1 / 2)], [2], [- (1 / 2)], [- (1 / 2)]],
             [[- (1 / 2)], [- (1 / 2)], [- (1 / 2)], [- (1 / 2)]], [[2]], [4, 7, 1, 2], [3]), 1)
   \<and> preprocess rotating [[0], [0], [0], [0], [0]] [1, 2, 3, 4, 7] 1
     = (Inr ([[0], [0], [0], [0], [0]], [[0], [0], [0], [0]], [[0]], [4, 7, 1, 2], [3]), 1)"
proof -
  have "fit_transform [[0], [0], [0], [0], [0]] = Inr [[0], [0], [0], [0], [0]]"
    by (simp add: fit_transform_def StandardScaler_fit_def StandardScaler_transform_def
      column_scale_def is_constant_feature_def float_eps_def power2_eq_square
      bind_error_def mean_def column_def transform_row_def Let_def)
  then have "preprocess rotating [[0], [0], [0], [0], [0]] [1, 2, 3, 4, 7] 1
     = (Inr ([[0], [0], [0], [0], [0]], [[0], [0], [0], [0]], [[0]], [4, 7, 1, 2], [3]), 1)"
    by (simp add: preprocess_def train_test_split_def shuffle_split_indices_def
      with_random_state_def rng_permutation_def rotating_def take_rows_def bind_error_simps
      upt_conv_Cons)
  with script5_preprocess [of 1] show ?thesis by (rule conjI)
qed

section \<open>Seeding of the hyperparameter search\<close>

lemma preprocess_leaves_generator: "snd (preprocess np X y glob) = glob"
  by (auto simp: preprocess_def train_test_split_def shuffle_split_indices_def
      with_random_state_def Let_def split: sum.splits prod.splits if_splits)

text \<open>
  In every script nothing before the optimizer draws from the process-wide generator seeded
  at the first lines, so the search of each of the three backends starts from the state that
  seed 1 gives; the optimizer of \<^verbatim>\<open>LGBM.ipynb\<close> does so whatever the process-wide generator
  holds, and leaves it untouched.
\<close>

lemma search_starts_from_seed:
  "fst (BayesSearchCV_fit np search (optimizer LightGBM) X_train y_train glob)
     = fst (search (RandomState np 1) 32 5 X_train y_train)
   \<and> snd (BayesSearchCV_fit np search (optimizer LightGBM) X_train y_train glob) = glob
   \<and> fst (BayesSearchCV_fit np search (optimizer b) X_train y_train
            (snd (preprocess np X y (RandomState np 1))))
     = fst (search (RandomState np 1) 32 5 X_train y_train)"
  by (cases b)
     (simp_all add: preprocess_leaves_generator BayesSearchCV_fit_def optimizer_def
       with_random_state_def)


end
